theory Spec2Isabelle
  imports Complex_Main "HOL-Library.Word" "HOL-Library.Signed_Division"
begin

unbundle bit_operations_syntax

section \<open>Scalars\<close>

text \<open>
  \<^verbatim>\<open>typedef int32_t TPE_Unit;\<close>  A scalar is a 32-bit machine integer.  Addition,
  subtraction and multiplication are the two's complement operations of the word type
  (they wrap around); comparisons of \<^verbatim>\<open>TPE_Unit\<close> values are the signed ones
  (\<open><s\<close>, \<open>\<le>s\<close>), read through \<open>sint\<close>.
\<close>

type_synonym TPE_Unit = "32 word"

text \<open>
  C's \<^verbatim>\<open>/\<close> and \<^verbatim>\<open>%\<close> on \<^verbatim>\<open>int32_t\<close> truncate towards zero.  That is
  \<open>sdiv\<close> and \<open>smod\<close> on \<open>int\<close>, not \<open>div\<close> and \<open>mod\<close>.  A zero divisor is undefined in C
  and gives \<open>0\<close> here; it does not arise below: every divisor is a non-zero constant, a value of
  \<^verbatim>\<open>TPE_nonZero\<close> or a length that has been tested against \<open>0\<close>, and the modulus of
  \<^verbatim>\<open>TPE_wrap\<close> is the \<open>4 * 128\<close> that \<^verbatim>\<open>TPE_sin\<close>, its only caller, passes.
\<close>

definition c_div :: "TPE_Unit \<Rightarrow> TPE_Unit \<Rightarrow> TPE_Unit" where
  "c_div a b = word_of_int (sint a sdiv sint b)"

definition c_mod :: "TPE_Unit \<Rightarrow> TPE_Unit \<Rightarrow> TPE_Unit" where
  "c_mod a b = word_of_int (sint a smod sint b)"

definition TPE_FRACTIONS_PER_UNIT :: TPE_Unit where
  "TPE_FRACTIONS_PER_UNIT = 512"

definition TPE_INFINITY :: TPE_Unit where
  "TPE_INFINITY = 2147483647"

definition TPE_wrap :: "TPE_Unit \<Rightarrow> TPE_Unit \<Rightarrow> TPE_Unit" where
  "TPE_wrap v m = (if 0 \<le>s v then c_mod v m else m + c_mod v m - 1)"

definition TPE_clamp :: "TPE_Unit \<Rightarrow> TPE_Unit \<Rightarrow> TPE_Unit \<Rightarrow> TPE_Unit" where
  "TPE_clamp v v1 v2 = (if v1 \<le>s v then (if v \<le>s v2 then v else v2) else v1)"

definition TPE_nonZero :: "TPE_Unit \<Rightarrow> TPE_Unit" where
  "TPE_nonZero a = a + (if a = 0 then 1 else 0)"

definition TPE_abs :: "TPE_Unit \<Rightarrow> TPE_Unit" where
  "TPE_abs a = (if 0 \<le>s a then a else (-1) * a)"

definition TPE_sign :: "TPE_Unit \<Rightarrow> 8 word" where
  "TPE_sign a = (if 0 <s a then 1 else if a <s 0 then -1 else 0)"

definition TPE_timesAntiZero :: "TPE_Unit \<Rightarrow> TPE_Unit \<Rightarrow> TPE_Unit" where
  "TPE_timesAntiZero a b =
     (let result = a * b
      in if TPE_FRACTIONS_PER_UNIT \<le>s result
         then c_div result TPE_FRACTIONS_PER_UNIT
         else (if result \<noteq> 0 then 1 else 0))"

subsection \<open>Integer square root\<close>

text \<open>
  \<^verbatim>\<open>TPE_sqrt\<close> works on \<^verbatim>\<open>uint32_t\<close> locals: the comparisons of its two loops are
  unsigned and \<^verbatim>\<open>>>=\<close> is a logical shift.  The first loop is \<open>sqrt_shrink\<close>, the
  second \<open>sqrt_loop\<close>; both stop because \<open>b\<close> only gets smaller.
\<close>

function sqrt_shrink :: "32 word \<Rightarrow> 32 word \<Rightarrow> 32 word" where
  "sqrt_shrink a b = (if a < b then sqrt_shrink a (drop_bit 2 b) else b)"
  by pat_completeness auto
termination
proof (relation "measure (\<lambda>(a, b). unat b)")
  show "wf (measure (\<lambda>(a, b). unat b))" by simp
next
  fix a b :: "32 word"
  assume "a < b"
  then have "unat a < unat b" by (simp add: word_less_nat_alt)
  then have "unat b div 2 ^ 2 < unat b" by simp
  then show "((a, drop_bit 2 b), (a, b)) \<in> measure (\<lambda>(a, b). unat b)"
    by (simp add: unat_drop_bit_eq drop_bit_eq_div unat_div)
qed

function sqrt_loop :: "32 word \<Rightarrow> 32 word \<Rightarrow> 32 word \<Rightarrow> 32 word" where
  "sqrt_loop a result b =
     (if b \<noteq> 0
      then (if result + b \<le> a
            then sqrt_loop (a - (result + b)) (drop_bit 1 (result + 2 * b)) (drop_bit 2 b)
            else sqrt_loop a (drop_bit 1 result) (drop_bit 2 b))
      else result)"
  by pat_completeness auto
termination
proof (relation "measure (\<lambda>(a, r, b). unat b)")
  show "wf (measure (\<lambda>(a, r, b). unat b))" by simp
next
  fix a r b :: "32 word"
  assume "b \<noteq> 0"
  then have "0 < unat b" by (simp add: unat_gt_0)
  then have "unat b div 2 ^ 2 < unat b" by simp
  then show "((a - (r + b), drop_bit 1 (r + 2 * b), drop_bit 2 b), (a, r, b))
      \<in> measure (\<lambda>(a, r, b). unat b)"
    by (simp add: unat_drop_bit_eq drop_bit_eq_div unat_div)
next
  fix a r b :: "32 word"
  assume "b \<noteq> 0"
  then have "0 < unat b" by (simp add: unat_gt_0)
  then have "unat b div 2 ^ 2 < unat b" by simp
  then show "((a, drop_bit 1 r, drop_bit 2 b), (a, r, b))
      \<in> measure (\<lambda>(a, r, b). unat b)"
    by (simp add: unat_drop_bit_eq drop_bit_eq_div unat_div)
qed

declare sqrt_shrink.simps [simp del]
declare sqrt_loop.simps [simp del]

text \<open>
  \<^verbatim>\<open>int8_t sign\<close> is promoted when it multiplies the \<^verbatim>\<open>uint32_t\<close> result, and the
  product is converted back to \<^verbatim>\<open>TPE_Unit\<close>: on 32-bit words that is a multiplication
  by the sign-extended \<open>sign\<close>.
\<close>

definition TPE_sqrt :: "TPE_Unit \<Rightarrow> TPE_Unit" where
  "TPE_sqrt v =
     (let sign = (if v <s 0 then -1 else 1 :: 8 word);
          v' = (if v <s 0 then v * (-1) else v);
          b = sqrt_shrink v' (push_bit 30 1);
          result = sqrt_loop v' 0 b
      in result * scast sign)"

section \<open>Vectors\<close>

text \<open>
  \<^verbatim>\<open>TPE_Vec4\<close> with its fields \<^verbatim>\<open>x\<close>, \<^verbatim>\<open>y\<close>, \<^verbatim>\<open>z\<close>, \<^verbatim>\<open>w\<close>; the selectors carry
  a prefix so that the letters stay free for variables.  The functions that write
  through a result pointer return the updated vector; those that write only
  \<^verbatim>\<open>x\<close>, \<^verbatim>\<open>y\<close>, \<^verbatim>\<open>z\<close> leave \<^verbatim>\<open>w\<close> as it was.
\<close>

record TPE_Vec4 =
  vec_x :: TPE_Unit
  vec_y :: TPE_Unit
  vec_z :: TPE_Unit
  vec_w :: TPE_Unit

definition TPE_vec4 :: "TPE_Unit \<Rightarrow> TPE_Unit \<Rightarrow> TPE_Unit \<Rightarrow> TPE_Unit \<Rightarrow> TPE_Vec4" where
  "TPE_vec4 a b c d = \<lparr>vec_x = a, vec_y = b, vec_z = c, vec_w = d\<rparr>"

definition TPE_initVec4 :: "TPE_Vec4 \<Rightarrow> TPE_Vec4" where
  "TPE_initVec4 v = v\<lparr>vec_x := 0, vec_y := 0, vec_z := 0, vec_w := 0\<rparr>"

definition TPE_vec4Set :: "TPE_Vec4 \<Rightarrow> TPE_Unit \<Rightarrow> TPE_Unit \<Rightarrow> TPE_Unit \<Rightarrow> TPE_Unit \<Rightarrow> TPE_Vec4" where
  "TPE_vec4Set v a b c d = v\<lparr>vec_x := a, vec_y := b, vec_z := c, vec_w := d\<rparr>"

text \<open>\<^verbatim>\<open>TPE_vec3Add(a,b,&result)\<close>: the third argument is the old \<^verbatim>\<open>*result\<close>.\<close>

definition TPE_vec3Add :: "TPE_Vec4 \<Rightarrow> TPE_Vec4 \<Rightarrow> TPE_Vec4 \<Rightarrow> TPE_Vec4" where
  "TPE_vec3Add a b result =
     result\<lparr>vec_x := vec_x a + vec_x b, vec_y := vec_y a + vec_y b, vec_z := vec_z a + vec_z b\<rparr>"

definition TPE_vec3Plus :: "TPE_Vec4 \<Rightarrow> TPE_Vec4 \<Rightarrow> TPE_Vec4" where
  "TPE_vec3Plus a b =
     a\<lparr>vec_x := vec_x a + vec_x b, vec_y := vec_y a + vec_y b, vec_z := vec_z a + vec_z b\<rparr>"

definition TPE_vec3Minus :: "TPE_Vec4 \<Rightarrow> TPE_Vec4 \<Rightarrow> TPE_Vec4" where
  "TPE_vec3Minus a b =
     a\<lparr>vec_x := vec_x a - vec_x b, vec_y := vec_y a - vec_y b, vec_z := vec_z a - vec_z b\<rparr>"

definition TPE_vec3Times :: "TPE_Vec4 \<Rightarrow> TPE_Unit \<Rightarrow> TPE_Vec4" where
  "TPE_vec3Times a f =
     a\<lparr>vec_x := c_div (vec_x a * f) TPE_FRACTIONS_PER_UNIT,
       vec_y := c_div (vec_y a * f) TPE_FRACTIONS_PER_UNIT,
       vec_z := c_div (vec_z a * f) TPE_FRACTIONS_PER_UNIT\<rparr>"

text \<open>\<^verbatim>\<open>TPE_vec3Multiply(v,f,&result)\<close>: the second argument here is the old \<^verbatim>\<open>*result\<close>.\<close>

definition TPE_vec3Multiply :: "TPE_Vec4 \<Rightarrow> TPE_Unit \<Rightarrow> TPE_Vec4 \<Rightarrow> TPE_Vec4" where
  "TPE_vec3Multiply v f result =
     result\<lparr>vec_x := c_div (vec_x v * f) TPE_FRACTIONS_PER_UNIT,
            vec_y := c_div (vec_y v * f) TPE_FRACTIONS_PER_UNIT,
            vec_z := c_div (vec_z v * f) TPE_FRACTIONS_PER_UNIT\<rparr>"

definition TPE_vec3DotProduct :: "TPE_Vec4 \<Rightarrow> TPE_Vec4 \<Rightarrow> TPE_Unit" where
  "TPE_vec3DotProduct v1 v2 =
     c_div (vec_x v1 * vec_x v2 + vec_y v1 * vec_y v2 + vec_z v1 * vec_z v2)
       TPE_FRACTIONS_PER_UNIT"

definition TPE_vec3DotProductPlain :: "TPE_Vec4 \<Rightarrow> TPE_Vec4 \<Rightarrow> TPE_Unit" where
  "TPE_vec3DotProductPlain v1 v2 =
     vec_x v1 * vec_x v2 + vec_y v1 * vec_y v2 + vec_z v1 * vec_z v2"

definition TPE_vec3Len :: "TPE_Vec4 \<Rightarrow> TPE_Unit" where
  "TPE_vec3Len v = TPE_sqrt (vec_x v * vec_x v + vec_y v * vec_y v + vec_z v * vec_z v)"

definition TPE_vec3Normalize :: "TPE_Vec4 \<Rightarrow> TPE_Vec4" where
  "TPE_vec3Normalize v =
     (let l = TPE_vec3Len v
      in if l = 0 then v\<lparr>vec_x := TPE_FRACTIONS_PER_UNIT\<rparr>
         else v\<lparr>vec_x := c_div (vec_x v * TPE_FRACTIONS_PER_UNIT) l,
                vec_y := c_div (vec_y v * TPE_FRACTIONS_PER_UNIT) l,
                vec_z := c_div (vec_z v * TPE_FRACTIONS_PER_UNIT) l\<rparr>)"

definition TPE_vec3Normalized :: "TPE_Vec4 \<Rightarrow> TPE_Vec4" where
  "TPE_vec3Normalized v = TPE_vec3Normalize v"

definition TPE_createVecFromTo :: "TPE_Vec4 \<Rightarrow> TPE_Vec4 \<Rightarrow> TPE_Unit \<Rightarrow> TPE_Vec4" where
  "TPE_createVecFromTo pointFrom pointTo size' =
     TPE_vec3Times (TPE_vec3Normalized (TPE_vec3Minus pointTo pointFrom)) size'"

definition TPE_lineSegmentClosestPoint :: "TPE_Vec4 \<Rightarrow> TPE_Vec4 \<Rightarrow> TPE_Vec4 \<Rightarrow> TPE_Vec4" where
  "TPE_lineSegmentClosestPoint a b p =
     (let ab = TPE_vec3Minus b a;
          t = c_div (TPE_vec3DotProduct ab (TPE_vec3Minus p a) * TPE_FRACTIONS_PER_UNIT)
                (TPE_nonZero (TPE_vec3DotProduct ab ab));
          t = (if t <s 0 then 0
               else if TPE_FRACTIONS_PER_UNIT <s t then TPE_FRACTIONS_PER_UNIT else t);
          ab = TPE_vec3Multiply ab t ab
      in TPE_vec3Plus a ab)"

section \<open>Sine and cosine\<close>

definition TPE_SIN_TABLE_LENGTH :: TPE_Unit where
  "TPE_SIN_TABLE_LENGTH = 128"

text \<open>
  The table of the quarter period: entry \<open>k\<close> of the source is the constant expression
  \<^verbatim>\<open>(k*TPE_FRACTIONS_PER_UNIT)/511\<close>.
\<close>

definition TPE_sinTable :: "TPE_Unit list" where
  "TPE_sinTable = map (\<lambda>k. c_div (k * TPE_FRACTIONS_PER_UNIT) 511)
     [0, 6, 12, 18, 25, 31, 37, 43,
      50, 56, 62, 68, 74, 81, 87, 93,
      99, 105, 111, 118, 124, 130, 136, 142,
      148, 154, 160, 166, 172, 178, 183, 189,
      195, 201, 207, 212, 218, 224, 229, 235,
      240, 246, 251, 257, 262, 268, 273, 278,
      283, 289, 294, 299, 304, 309, 314, 319,
      324, 328, 333, 338, 343, 347, 352, 356,
      361, 365, 370, 374, 378, 382, 386, 391,
      395, 398, 402, 406, 410, 414, 417, 421,
      424, 428, 431, 435, 438, 441, 444, 447,
      450, 453, 456, 459, 461, 464, 467, 469,
      472, 474, 476, 478, 481, 483, 485, 487,
      488, 490, 492, 494, 495, 497, 498, 499,
      501, 502, 503, 504, 505, 506, 507, 507,
      508, 509, 509, 510, 510, 510, 510, 510]"

definition TPE_SIN_TABLE_UNIT_STEP :: TPE_Unit where
  "TPE_SIN_TABLE_UNIT_STEP = c_div TPE_FRACTIONS_PER_UNIT (TPE_SIN_TABLE_LENGTH * 4)"

text \<open>
  \<^verbatim>\<open>TPE_sin\<close>.  After \<^verbatim>\<open>TPE_wrap\<close> the index lies in \<open>[0, 4 * 128)\<close> and each of the four
  branches brings it into the table (\<open>TPE_wrap_range\<close>, \<open>TPE_sin_index_in_table\<close> and
  \<open>sin_quadrants_reads_table\<close> below), so the read \<^verbatim>\<open>TPE_sinTable[x]\<close> is the list's \<open>!\<close>.
\<close>

definition TPE_sin :: "TPE_Unit \<Rightarrow> TPE_Unit" where
  "TPE_sin a =
     (let a = TPE_wrap (c_div a TPE_SIN_TABLE_UNIT_STEP) (TPE_SIN_TABLE_LENGTH * 4)
      in if a <s TPE_SIN_TABLE_LENGTH
           then TPE_sinTable ! unat a
         else if a <s TPE_SIN_TABLE_LENGTH * 2
           then TPE_sinTable ! unat (TPE_SIN_TABLE_LENGTH * 2 - a - 1)
         else if a <s TPE_SIN_TABLE_LENGTH * 3
           then (- 1) * TPE_sinTable ! unat (a - TPE_SIN_TABLE_LENGTH * 2)
         else (- 1) * TPE_sinTable ! unat
                (TPE_SIN_TABLE_LENGTH - (a - TPE_SIN_TABLE_LENGTH * 3) - 1))"

definition TPE_cos :: "TPE_Unit \<Rightarrow> TPE_Unit" where
  "TPE_cos a = TPE_sin (a + c_div TPE_FRACTIONS_PER_UNIT 4)"

section \<open>Rotations\<close>

definition TPE_quaternionInit :: "TPE_Vec4 \<Rightarrow> TPE_Vec4" where
  "TPE_quaternionInit quaternion =
     quaternion\<lparr>vec_x := 0, vec_y := 0, vec_z := 0, vec_w := TPE_FRACTIONS_PER_UNIT\<rparr>"

definition TPE_rotationToQuaternion :: "TPE_Vec4 \<Rightarrow> TPE_Unit \<Rightarrow> TPE_Vec4" where
  "TPE_rotationToQuaternion axis angle =
     (let axis = TPE_vec3Normalize axis;
          angle = c_div angle 2;
          s = TPE_sin angle
      in \<lparr>vec_x = c_div (s * vec_x axis) TPE_FRACTIONS_PER_UNIT,
          vec_y = c_div (s * vec_y axis) TPE_FRACTIONS_PER_UNIT,
          vec_z = c_div (s * vec_z axis) TPE_FRACTIONS_PER_UNIT,
          vec_w = TPE_cos angle\<rparr>)"

text \<open>
  \<^verbatim>\<open>TPE_Unit matrix[4][4]\<close> is a list of four lists of four: \<^verbatim>\<open>matrix[i][j]\<close> is
  \<open>m ! i ! j\<close>.
\<close>

definition TPE_quaternionToRotationMatrix :: "TPE_Vec4 \<Rightarrow> TPE_Unit list list" where
  "TPE_quaternionToRotationMatrix q =
     (let qx = vec_x q; qy = vec_y q; qz = vec_z q; qw = vec_w q;
          d2x2 = c_div (2 * qx * qx) TPE_FRACTIONS_PER_UNIT;
          d2y2 = c_div (2 * qy * qy) TPE_FRACTIONS_PER_UNIT;
          d2z2 = c_div (2 * qz * qz) TPE_FRACTIONS_PER_UNIT;
          d2xy = c_div (2 * qx * qy) TPE_FRACTIONS_PER_UNIT;
          d2xw = c_div (2 * qx * qw) TPE_FRACTIONS_PER_UNIT;
          d2zw = c_div (2 * qz * qw) TPE_FRACTIONS_PER_UNIT;
          d2xz = c_div (2 * qx * qz) TPE_FRACTIONS_PER_UNIT;
          d2yw = c_div (2 * qy * qw) TPE_FRACTIONS_PER_UNIT;
          d2yz = c_div (2 * qy * qz) TPE_FRACTIONS_PER_UNIT;
          ONE = TPE_FRACTIONS_PER_UNIT
      in [[ONE - d2y2 - d2z2, d2xy + d2zw, d2xz - d2yw, 0],
          [d2xy - d2zw, ONE - d2x2 - d2z2, d2yz + d2xw, 0],
          [d2xz + d2yw, d2yz - d2xw, ONE - d2x2 - d2y2, 0],
          [0, 0, 0, ONE]])"

definition TPE_rotatePoint :: "TPE_Vec4 \<Rightarrow> TPE_Vec4 \<Rightarrow> TPE_Vec4" where
  "TPE_rotatePoint point quaternion =
     (let m = TPE_quaternionToRotationMatrix quaternion;
          p = point
      in point
         \<lparr>vec_x := c_div (vec_x p * m ! 0 ! 0 + vec_y p * m ! 0 ! 1 + vec_z p * m ! 0 ! 2)
                     TPE_FRACTIONS_PER_UNIT,
          vec_y := c_div (vec_x p * m ! 1 ! 0 + vec_y p * m ! 1 ! 1 + vec_z p * m ! 1 ! 2)
                     TPE_FRACTIONS_PER_UNIT,
          vec_z := c_div (vec_x p * m ! 2 ! 0 + vec_y p * m ! 2 ! 1 + vec_z p * m ! 2 ! 2)
                     TPE_FRACTIONS_PER_UNIT\<rparr>)"

section \<open>Velocities after a collision in one dimension\<close>

text \<open>
  \<^verbatim>\<open>TPE_getVelocitiesAfterCollision\<close> updates \<^verbatim>\<open>*v1\<close> and \<^verbatim>\<open>*v2\<close>; the model
  returns the pair of new values.
\<close>

definition TPE_getVelocitiesAfterCollision ::
  "TPE_Unit \<Rightarrow> TPE_Unit \<Rightarrow> TPE_Unit \<Rightarrow> TPE_Unit \<Rightarrow> TPE_Unit \<Rightarrow> TPE_Unit \<times> TPE_Unit" where
  "TPE_getVelocitiesAfterCollision v1 v2 m1 m2 elasticity =
     (let ANTI_OVERFLOW = 30000;
          ANTI_OVERFLOW_SCALE = 128;
          overflowDanger = (ANTI_OVERFLOW <s m1 \<or> ANTI_OVERFLOW <s v1 \<or>
                            ANTI_OVERFLOW <s m2 \<or> ANTI_OVERFLOW <s v2);
          scale = (\<lambda>u. if overflowDanger
                       then (if u \<noteq> 0 then TPE_nonZero (c_div u ANTI_OVERFLOW_SCALE) else 0)
                       else u);
          m1 = scale m1;
          m2 = scale m2;
          v1 = scale v1;
          v2 = scale v2;
          m1Pm2 = TPE_nonZero (m1 + m2);
          v2Mv1 = TPE_nonZero (v2 - v1);
          m1v1Pm2v2 = m1 * v1 + m2 * v2;
          v1 = c_div (c_div (elasticity * m2) TPE_FRACTIONS_PER_UNIT * v2Mv1 + m1v1Pm2v2) m1Pm2;
          v2 = c_div (c_div (elasticity * m1) TPE_FRACTIONS_PER_UNIT * (- 1) * v2Mv1 + m1v1Pm2v2)
                 m1Pm2
      in if overflowDanger then (v1 * ANTI_OVERFLOW_SCALE, v2 * ANTI_OVERFLOW_SCALE)
         else (v1, v2))"

section \<open>Bodies and worlds\<close>

record TPE_RotationState =
  originalOrientation :: TPE_Vec4
  axisVelocity :: TPE_Vec4
  currentAngle :: TPE_Unit

text \<open>
  \<^verbatim>\<open>TPE_Body\<close>.  The \<^verbatim>\<open>void *\<close> shape parameters are kept as addresses; no function
  modelled here reads them.
\<close>

record TPE_Body =
  shape :: "8 word"
  shapeParams :: "TPE_Unit list"
  shapeParamPointers :: "nat list"
  flags :: "8 word"
  mass :: TPE_Unit
  position :: TPE_Vec4
  velocity :: TPE_Vec4
  rotation :: TPE_RotationState
  boundingSphereRadius :: TPE_Unit
  antiVibration :: "8 word"

record TPE_World =
  bodies :: "TPE_Body list"
  bodyCount :: "16 word"

text \<open>
  \<^verbatim>\<open>TPE_bodyInit\<close> leaves \<^verbatim>\<open>shape\<close>, \<^verbatim>\<open>shapeParams\<close>, \<^verbatim>\<open>shapeParamPointers\<close> and
  \<^verbatim>\<open>flags\<close> as they were.
\<close>

definition TPE_bodyInit :: "TPE_Body \<Rightarrow> TPE_Body" where
  "TPE_bodyInit body =
     body\<lparr>position := TPE_initVec4 (position body),
          velocity := TPE_initVec4 (velocity body),
          rotation := (rotation body)
            \<lparr>originalOrientation := TPE_quaternionInit (originalOrientation (rotation body)),
             axisVelocity := TPE_vec4Set (axisVelocity (rotation body)) TPE_FRACTIONS_PER_UNIT 0 0 0,
             currentAngle := 0\<rparr>,
          mass := TPE_FRACTIONS_PER_UNIT,
          boundingSphereRadius := 0,
          antiVibration := 0\<rparr>"

definition TPE_bodyStep :: "TPE_Body \<Rightarrow> TPE_Body" where
  "TPE_bodyStep body =
     (let body =
            (if mass body \<noteq> TPE_INFINITY
             then body\<lparr>position := TPE_vec3Add (position body) (velocity body) (position body),
                       rotation := (rotation body)
                         \<lparr>currentAngle := currentAngle (rotation body)
                            + vec_w (axisVelocity (rotation body))\<rparr>\<rparr>
             else body)
      in if (antiVibration body AND 0x7f) \<noteq> 0
         then (let body = body\<lparr>antiVibration :=
                       (antiVibration body AND 0x80) OR ((antiVibration body AND 0x7f) - 1)\<rparr>
               in if antiVibration body = 0x80 then body\<lparr>antiVibration := 0\<rparr> else body)
         else body)"

text \<open>
  The loops over \<^verbatim>\<open>world->bodies\<close> run \<^verbatim>\<open>uint16_t i\<close> from \<open>0\<close> while
  \<^verbatim>\<open>i < world->bodyCount\<close>; \<open>i\<close> never wraps, since it stays below a 16-bit count, so the
  index is a \<open>nat\<close>.  C does not check the array's length: a read past the end of
  \<open>bodies\<close> is undefined, and is \<open>None\<close> here.
\<close>

function worldStepBodies_from :: "TPE_World \<Rightarrow> nat \<Rightarrow> TPE_World option" where
  "worldStepBodies_from world i =
     (if i < unat (bodyCount world)
      then (if i < length (bodies world)
            then worldStepBodies_from
                   (world\<lparr>bodies := (bodies world)[i := TPE_bodyStep (bodies world ! i)]\<rparr>) (Suc i)
            else None)
      else Some world)"
  by pat_completeness auto
termination
  by (relation "measure (\<lambda>(world, i). unat (bodyCount world) - i)") auto

definition TPE_worldStepBodies :: "TPE_World \<Rightarrow> TPE_World option" where
  "TPE_worldStepBodies world = worldStepBodies_from world 0"

text \<open>
  \<^verbatim>\<open>TPE_worldApplyGravityDown\<close> walks the array with the pointer \<^verbatim>\<open>b\<close>;
  \<open>applyGravityDown_body\<close> is the body of its loop, applied to \<^verbatim>\<open>*b\<close>.
\<close>

definition applyGravityDown_body :: "TPE_Unit \<Rightarrow> TPE_Body \<Rightarrow> TPE_Body" where
  "applyGravityDown_body g b =
     (if mass b \<noteq> TPE_INFINITY
      then b\<lparr>velocity := (velocity b)\<lparr>vec_y := vec_y (velocity b) - g\<rparr>\<rparr>
      else b)"

function worldApplyGravityDown_from :: "TPE_World \<Rightarrow> TPE_Unit \<Rightarrow> nat \<Rightarrow> TPE_World option" where
  "worldApplyGravityDown_from world g i =
     (if i < unat (bodyCount world)
      then (if i < length (bodies world)
            then worldApplyGravityDown_from
                   (world\<lparr>bodies := (bodies world)[i := applyGravityDown_body g (bodies world ! i)]\<rparr>)
                   g (Suc i)
            else None)
      else Some world)"
  by pat_completeness auto
termination
  by (relation "measure (\<lambda>(world, g, i). unat (bodyCount world) - i)") auto

definition TPE_worldApplyGravityDown :: "TPE_World \<Rightarrow> TPE_Unit \<Rightarrow> TPE_World option" where
  "TPE_worldApplyGravityDown world g = worldApplyGravityDown_from world g 0"

text \<open>
  \<^verbatim>\<open>TPE_attractBodies\<close> writes the velocities of both bodies; the model returns the two
  bodies, \<^verbatim>\<open>body1\<close> first.
\<close>

definition TPE_attractBodies :: "TPE_Body \<Rightarrow> TPE_Body \<Rightarrow> TPE_Unit \<Rightarrow> TPE_Body \<times> TPE_Body" where
  "TPE_attractBodies body1 body2 acceleration =
     (let direction = TPE_createVecFromTo (position body2) (position body1) acceleration
      in (body1\<lparr>velocity := TPE_vec3Minus (velocity body1) direction\<rparr>,
          body2\<lparr>velocity := TPE_vec3Plus (velocity body2) direction\<rparr>))"

declare worldStepBodies_from.simps [simp del]
declare worldApplyGravityDown_from.simps [simp del]

section \<open>Quantities the properties are stated with\<close>

text \<open>
  The fixed-point value of \<open>p / F + q / F - F * F / F\<close>, in absolute value; with \<open>p\<close> and \<open>q\<close> the
  squares of sine and cosine it is the error of the Pythagorean identity.
\<close>

definition fixed_square_sum_error :: "TPE_Unit \<Rightarrow> TPE_Unit \<Rightarrow> int" where
  "fixed_square_sum_error p q =
     \<bar>sint (c_div p TPE_FRACTIONS_PER_UNIT + c_div q TPE_FRACTIONS_PER_UNIT
          - c_div (TPE_FRACTIONS_PER_UNIT * TPE_FRACTIONS_PER_UNIT) TPE_FRACTIONS_PER_UNIT)\<bar>"

definition trig_identity_error :: "TPE_Unit \<Rightarrow> int" where
  "trig_identity_error a =
     fixed_square_sum_error (TPE_sin a * TPE_sin a) (TPE_cos a * TPE_cos a)"

text \<open>
  The four branches of \<^verbatim>\<open>TPE_sin\<close> on an integer index \<open>m\<close> in \<open>[0, 512)\<close>, used to reason about
  the lookups.
\<close>

definition sin_quadrants :: "int \<Rightarrow> TPE_Unit" where
  "sin_quadrants m =
     (if m < 128 then TPE_sinTable ! nat m
      else if m < 256 then TPE_sinTable ! nat (255 - m)
      else if m < 384 then - (TPE_sinTable ! nat (m - 256))
      else - (TPE_sinTable ! nat (511 - m)))"

text \<open>
  The exact dot product of two vectors, on the integers their components stand for; bounds on
  the components of a vector; and agreement of two vectors up to \<open>eps\<close> in each of the
  components \<open>x\<close>, \<open>y\<close>, \<open>z\<close>.
\<close>

definition dot_int :: "TPE_Vec4 \<Rightarrow> TPE_Vec4 \<Rightarrow> int" where
  "dot_int u v =
     sint (vec_x u) * sint (vec_x v) + sint (vec_y u) * sint (vec_y v)
       + sint (vec_z u) * sint (vec_z v)"

definition coords_within :: "int \<Rightarrow> TPE_Vec4 \<Rightarrow> bool" where
  "coords_within B v =
     (\<bar>sint (vec_x v)\<bar> \<le> B \<and> \<bar>sint (vec_y v)\<bar> \<le> B \<and> \<bar>sint (vec_z v)\<bar> \<le> B)"

definition within_tolerance :: "int \<Rightarrow> TPE_Vec4 \<Rightarrow> TPE_Vec4 \<Rightarrow> bool" where
  "within_tolerance eps u v =
     (\<bar>sint (vec_x u) - sint (vec_x v)\<bar> \<le> eps \<and>
      \<bar>sint (vec_y u) - sint (vec_y v)\<bar> \<le> eps \<and>
      \<bar>sint (vec_z u) - sint (vec_z v)\<bar> \<le> eps)"

text \<open>
  The vector \<open>(F,0,0)\<close> turned by a quarter turn (the angle \<open>F / 4\<close>) about the \<open>z\<close> axis.
\<close>

definition quarter_turn_about_z :: TPE_Vec4 where
  "quarter_turn_about_z =
     TPE_rotatePoint (TPE_vec4 TPE_FRACTIONS_PER_UNIT 0 0 0)
       (TPE_rotationToQuaternion (TPE_vec4 0 0 TPE_FRACTIONS_PER_UNIT 0)
          (c_div TPE_FRACTIONS_PER_UNIT 4))"

text \<open>
  Bodies for concrete runs, set up the way the repository's tests do: storage, here zeroed,
  passed to \<^verbatim>\<open>TPE_bodyInit\<close>, then single fields assigned.  \<open>example_static\<close> is a static
  body at the origin, \<open>example_moving\<close> a body of mass \<open>F\<close> at \<open>(1000,0,0)\<close>; both are at rest.
\<close>

definition zeroed_body :: TPE_Body where
  "zeroed_body =
     \<lparr>shape = 0, shapeParams = [0, 0, 0], shapeParamPointers = [0, 0], flags = 0, mass = 0,
      position = TPE_vec4 0 0 0 0, velocity = TPE_vec4 0 0 0 0,
      rotation = \<lparr>originalOrientation = TPE_vec4 0 0 0 0, axisVelocity = TPE_vec4 0 0 0 0,
                  currentAngle = 0\<rparr>,
      boundingSphereRadius = 0, antiVibration = 0\<rparr>"

definition example_static :: TPE_Body where
  "example_static = (TPE_bodyInit zeroed_body)\<lparr>mass := TPE_INFINITY\<rparr>"

definition example_moving :: TPE_Body where
  "example_moving = (TPE_bodyInit zeroed_body)\<lparr>position := TPE_vec4 1000 0 0 0\<rparr>"

section \<open>Signed arithmetic within range\<close>

lemma sint_word_of_int_32:
  assumes "- (2 ^ 31) \<le> k" "k < 2 ^ 31"
  shows "sint (word_of_int k :: 32 word) = k"
proof -
  have "sint (word_of_int k :: 32 word) = signed_take_bit 31 k"
    by (simp only: sint_sbintrunc') simp
  also have "\<dots> = k" using assms by (rule signed_take_bit_int_eq_self)
  finally show ?thesis .
qed

lemma unat_word_of_int_32:
  assumes "0 \<le> j" "j < 2 ^ 32"
  shows "unat (word_of_int j :: 32 word) = nat j"
proof -
  have "uint (word_of_int j :: 32 word) = take_bit 32 j"
    by (simp only: uint_word_of_int_eq) simp
  also have "\<dots> = j" using assms by (simp add: take_bit_int_eq_self)
  finally show ?thesis by (simp add: unat_eq_nat_uint)
qed

lemma word_of_int_eq_0_32:
  assumes "- (2 ^ 31) \<le> k" "k < 2 ^ 31"
  shows "(word_of_int k :: 32 word) = 0 \<longleftrightarrow> k = 0"
proof
  assume "(word_of_int k :: 32 word) = 0"
  then have "sint (word_of_int k :: 32 word) = 0" by simp
  then show "k = 0" using sint_word_of_int_32 [OF assms] by simp
qed simp

lemma uint_sint_nonneg:
  fixes v :: "32 word"
  assumes nn: "0 \<le> sint v"
  shows "uint v = sint v"
proof -
  have "uint v = uint (word_of_int (sint v) :: 32 word)" by simp
  also have "\<dots> = take_bit 32 (sint v)" by (simp only: uint_word_of_int_eq) simp
  also have "\<dots> = sint v" using nn sint_lt [of v] by (simp add: take_bit_int_eq_self)
  finally show ?thesis .
qed

lemma sint_of_nat_small:
  assumes "R < 2 ^ 31"
  shows "sint (of_nat R :: 32 word) = int R"
proof -
  have "sint (of_nat R :: 32 word) = sint (word_of_int (int R) :: 32 word)"
    by simp
  also have "\<dots> = signed_take_bit 31 (int R)"
    by (simp only: sint_sbintrunc') simp
  also have "\<dots> = int R"
  proof (rule signed_take_bit_int_eq_self)
    show "- (2 ^ 31) \<le> int R" by simp
    show "int R < 2 ^ 31" using assms by simp
  qed
  finally show ?thesis .
qed

lemma c_div_of_int:
  assumes "- (2 ^ 31) \<le> k" "k < 2 ^ 31" "- (2 ^ 31) \<le> l" "l < 2 ^ 31"
  shows "c_div (word_of_int k) (word_of_int l) = word_of_int (k sdiv l)"
  using assms by (simp add: c_div_def sint_word_of_int_32)

lemma sdiv_mult_cancel_left:
  fixes c n :: int
  assumes "c \<noteq> 0"
  shows "(c * n) sdiv c = n"
proof -
  have "sgn c * sgn c = 1" using assms by simp
  then have "sgn (c * n) * sgn c = sgn n" by (simp add: sgn_mult algebra_simps)
  moreover have "\<bar>c * n\<bar> div \<bar>c\<bar> = \<bar>n\<bar>" using assms by (simp add: abs_mult)
  ultimately show ?thesis by (simp add: signed_divide_int_def mult_sgn_abs)
qed

lemma div_pos_bounds:
  fixes u c :: int
  assumes "0 \<le> u" "0 < c"
  shows "0 \<le> u div c" "u div c * c \<le> u" "u div c \<le> u"
proof -
  show q: "0 \<le> u div c" using assms by (simp add: pos_imp_zdiv_nonneg_iff)
  have "u div c * c + u mod c = u" by simp
  moreover have "0 \<le> u mod c" using assms by simp
  ultimately show m: "u div c * c \<le> u" by linarith
  have "u div c * 1 \<le> u div c * c" using q assms by (intro mult_left_mono) simp_all
  with m show "u div c \<le> u" by simp
qed

lemma sdiv_nonneg:
  fixes u c :: int
  assumes "0 \<le> u" "0 < c"
  shows "u sdiv c = u div c"
  using assms by (simp add: signed_divide_int_def sgn_if)

lemma sdiv_nonpos:
  fixes u c :: int
  assumes "u \<le> 0" "0 < c"
  shows "u sdiv c = - ((- u) div c)"
  using assms by (simp add: signed_divide_int_def sgn_if)

lemma sdiv_nonpos_bounds:
  fixes u c :: int
  assumes "u \<le> 0" "0 < c"
  shows "u sdiv c \<le> 0" "u \<le> u sdiv c"
  using div_pos_bounds [of "- u" c] assms by (simp_all add: sdiv_nonpos)

lemma sdiv_nonneg_bounds:
  fixes u c :: int
  assumes "0 \<le> u" "0 < c"
  shows "0 \<le> u sdiv c" "u sdiv c \<le> u"
  using div_pos_bounds [of u c] assms by (simp_all add: sdiv_nonneg)

lemma sdiv_times_bounds:
  fixes u c :: int
  assumes "0 < c"
  shows "\<bar>(u sdiv c) * c\<bar> \<le> \<bar>u\<bar>"
proof (cases "0 \<le> u")
  case True
  with assms div_pos_bounds [of u c] show ?thesis by (simp add: sdiv_nonneg abs_mult)
next
  case False
  with assms div_pos_bounds [of "- u" c] show ?thesis by (simp add: sdiv_nonpos abs_mult)
qed

lemma div_ge_of_mult_le:
  fixes n d q :: int
  assumes "0 < d" "q * d \<le> n"
  shows "q \<le> n div d"
proof -
  have "(q * d) div d \<le> n div d" using assms(2,1) by (rule zdiv_mono1)
  then show ?thesis using assms(1) by simp
qed

lemma abs_mult_bound:
  fixes k b :: int
  assumes "\<bar>k\<bar> \<le> K" "\<bar>b\<bar> \<le> B"
  shows "\<bar>k * b\<bar> \<le> K * B"
proof -
  have "\<bar>k\<bar> * \<bar>b\<bar> \<le> K * B"
    using assms by (intro mult_mono) auto
  then show ?thesis by (simp add: abs_mult)
qed

lemma abs_bound_range32:
  fixes u :: int
  assumes "\<bar>u\<bar> \<le> 60000 * 30000"
  shows "- (2 ^ 31) \<le> u" "u < 2 ^ 31"
  using assms by simp_all

lemma c_div_times_unit:
  assumes "\<bar>sint w\<bar> \<le> 26000"
  shows "c_div (w * TPE_FRACTIONS_PER_UNIT) TPE_FRACTIONS_PER_UNIT = w"
proof -
  define k where "k = sint w"
  have w: "w = word_of_int k" by (simp add: k_def)
  have "\<bar>512 * k\<bar> \<le> 512 * 26000"
    using assms by (simp add: k_def)
  then have r: "- (2 ^ 31) \<le> 512 * k" "512 * k < 2 ^ 31" by simp_all
  have "c_div (word_of_int (512 * k)) (word_of_int 512) = (word_of_int ((512 * k) sdiv 512) :: 32 word)"
    using r by (intro c_div_of_int) simp_all
  moreover have "(512 * k) sdiv 512 = k" by (rule sdiv_mult_cancel_left) simp
  ultimately have "c_div (word_of_int (512 * k)) (word_of_int 512) = (word_of_int k :: 32 word)"
    by simp
  then show ?thesis
    by (simp add: w TPE_FRACTIONS_PER_UNIT_def mult.commute)
qed

section \<open>The integer square root is exact\<close>

lemma unat_drop_bit2: "unat (drop_bit 2 b) = unat b div 4" for b :: "32 word"
  by (simp add: unat_drop_bit_eq drop_bit_eq_div unat_div)

lemma unat_drop_bit1: "unat (drop_bit 1 b) = unat b div 2" for b :: "32 word"
  by (simp add: unat_drop_bit_eq drop_bit_eq_div unat_div)

lemma unat_add32: "unat a + unat b < 2 ^ 32 \<Longrightarrow> unat (a + b) = unat a + unat b"
  for a b :: "32 word"
  using unat_add_lem [of a b] by simp

lemma sqrt_shrink_spec:
  "unat b = 4 ^ j div 4 \<Longrightarrow> unat a < 4 ^ j \<Longrightarrow>
   \<exists>j'\<le>j. unat a < 4 ^ j' \<and> unat (sqrt_shrink a b) = 4 ^ j' div 4"
proof (induction j arbitrary: b)
  case 0
  then have "b = 0" by (simp add: unat_eq_0)
  then have "sqrt_shrink a b = 0" by (simp add: sqrt_shrink.simps)
  with 0 show ?case by auto
next
  case (Suc j)
  have b: "unat b = 4 ^ j" using Suc.prems(1) by simp
  show ?case
  proof (cases "a < b")
    case True
    then have lt: "unat a < 4 ^ j" using b by (simp add: word_less_nat_alt)
    have "unat (drop_bit 2 b) = 4 ^ j div 4" by (simp add: unat_drop_bit2 b)
    from Suc.IH [OF this lt] obtain j' where
      "j' \<le> j" "unat a < 4 ^ j'" "unat (sqrt_shrink a (drop_bit 2 b)) = 4 ^ j' div 4"
      by blast
    moreover have "sqrt_shrink a b = sqrt_shrink a (drop_bit 2 b)"
      using True by (subst sqrt_shrink.simps) simp
    ultimately show ?thesis by (intro exI [of _ j']) simp
  next
    case False
    then have "sqrt_shrink a b = b" by (subst sqrt_shrink.simps) simp
    with Suc.prems show ?thesis by (intro exI [of _ "Suc j"]) simp
  qed
qed

lemma sqrt_bound_step:
  fixes r B p :: nat
  assumes "(r + 1) * (2 * p) \<le> 2 ^ 16" "B = p * p" "2 * p \<le> 2 ^ 16"
  shows "(r + 1) * (4 * B) \<le> 2 ^ 32"
proof -
  have "((r + 1) * (2 * p)) * (2 * p) \<le> 2 ^ 16 * 2 ^ 16"
    using assms(1,3) by (rule mult_le_mono)
  then show ?thesis using assms(2) by (simp add: algebra_simps)
qed

lemma sqrt_loop_spec:
  "unat b = 4 ^ j div 4 \<Longrightarrow> unat res = r * 4 ^ j \<Longrightarrow> unat a = X - r * r * 4 ^ j \<Longrightarrow>
   r * r * 4 ^ j \<le> X \<Longrightarrow> X < (r + 1) * (r + 1) * 4 ^ j \<Longrightarrow> (r + 1) * 2 ^ j \<le> 2 ^ 16 \<Longrightarrow>
   \<exists>R. unat (sqrt_loop a res b) = R \<and> R * R \<le> X \<and> X < (R + 1) * (R + 1)"
proof (induction j arbitrary: a res b r)
  case 0
  then have "b = 0" by (simp add: unat_eq_0)
  then have "sqrt_loop a res b = res" by (subst sqrt_loop.simps) simp
  with 0 show ?case by simp
next
  case (Suc j)
  define B :: nat where "B = 4 ^ j"
  define p :: nat where "p = 2 ^ j"
  have Bp: "B = p * p" by (simp add: B_def p_def power_mult_distrib [symmetric])
  have b: "unat b = B" using Suc.prems(1) by (simp add: B_def)
  have res: "unat res = r * (4 * B)" using Suc.prems(2) by (simp add: B_def)
  have a: "unat a = X - r * r * (4 * B)" using Suc.prems(3) by (simp add: B_def)
  have lo: "r * r * (4 * B) \<le> X" using Suc.prems(4) by (simp add: B_def)
  have hi: "X < (r + 1) * (r + 1) * (4 * B)" using Suc.prems(5) by (simp add: B_def)
  have bd: "(r + 1) * (2 * p) \<le> 2 ^ 16" using Suc.prems(6) by (simp add: p_def)
  have "1 * (2 * p) \<le> (r + 1) * (2 * p)" by (rule mult_le_mono1) simp
  with bd have p16: "2 * p \<le> 2 ^ 16" by simp
  have big: "(r + 1) * (4 * B) \<le> 2 ^ 32" using bd Bp p16 by (rule sqrt_bound_step)
  have Bpos: "0 < B" by (simp add: B_def)
  have nz: "b \<noteq> 0" using b Bpos by (auto simp: unat_eq_0)
  have rb: "unat (res + b) = r * (4 * B) + B"
    using unat_add32 [of res b] res b big Bpos by (simp add: algebra_simps)
  have b2: "unat (2 * b) = 2 * B"
    using unat_add32 [of b b] b big Bpos by (simp add: algebra_simps mult_2)
  have rb2: "unat (res + 2 * b) = r * (4 * B) + 2 * B"
    using unat_add32 [of res "2 * b"] res b2 big Bpos by (simp add: algebra_simps)
  have nb: "unat (drop_bit 2 b) = 4 ^ j div 4" by (simp add: unat_drop_bit2 b B_def)
  show ?case
  proof (cases "res + b \<le> a")
    case True
    then have le: "r * (4 * B) + B \<le> X - r * r * (4 * B)"
      using rb a by (simp add: word_le_nat_alt)
    have step: "sqrt_loop a res b =
        sqrt_loop (a - (res + b)) (drop_bit 1 (res + 2 * b)) (drop_bit 2 b)"
      using nz True by (subst sqrt_loop.simps) simp
    have "unat (drop_bit 1 (res + 2 * b)) = (r * (4 * B) + 2 * B) div 2"
      by (simp only: unat_drop_bit1 rb2)
    then have r1: "unat (drop_bit 1 (res + 2 * b)) = (2 * r + 1) * 4 ^ j"
      by (simp add: B_def)
    have a1: "unat (a - (res + b)) = X - (2 * r + 1) * (2 * r + 1) * 4 ^ j"
      using True le rb a lo by (simp add: unat_sub B_def algebra_simps)
    have lo1: "(2 * r + 1) * (2 * r + 1) * 4 ^ j \<le> X"
      using le lo by (simp add: B_def algebra_simps)
    have hi1: "X < (2 * r + 1 + 1) * (2 * r + 1 + 1) * 4 ^ j"
      using hi by (simp add: B_def algebra_simps)
    have bd1: "(2 * r + 1 + 1) * 2 ^ j \<le> 2 ^ 16"
      using bd by (simp add: p_def algebra_simps)
    from Suc.IH [OF nb r1 a1 lo1 hi1 bd1] step show ?thesis by simp
  next
    case False
    then have gt: "X - r * r * (4 * B) < r * (4 * B) + B"
      using rb a by (simp add: word_le_nat_alt)
    have step: "sqrt_loop a res b = sqrt_loop a (drop_bit 1 res) (drop_bit 2 b)"
      using nz False by (subst sqrt_loop.simps) simp
    have "unat (drop_bit 1 res) = (r * (4 * B)) div 2"
      by (simp only: unat_drop_bit1 res)
    then have r1: "unat (drop_bit 1 res) = (2 * r) * 4 ^ j"
      by (simp add: B_def)
    have a1: "unat a = X - (2 * r) * (2 * r) * 4 ^ j"
      using a by (simp add: B_def algebra_simps)
    have lo1: "(2 * r) * (2 * r) * 4 ^ j \<le> X"
      using lo by (simp add: B_def algebra_simps)
    have hi1: "X < (2 * r + 1) * (2 * r + 1) * 4 ^ j"
      using gt lo by (simp add: B_def algebra_simps)
    have bd1: "(2 * r + 1) * 2 ^ j \<le> 2 ^ 16"
      using bd by (simp add: p_def algebra_simps)
    from Suc.IH [OF nb r1 a1 lo1 hi1 bd1] step show ?thesis by simp
  qed
qed

lemma floor_sqrt_eq:
  fixes R X :: nat
  assumes "R * R \<le> X" "X < (R + 1) * (R + 1)"
  shows "\<lfloor>sqrt (real X)\<rfloor> = int R"
proof -
  have "real R * real R \<le> real X"
    using assms(1) by (metis of_nat_le_iff of_nat_mult)
  then have "(real R)\<^sup>2 \<le> real X" by (simp add: power2_eq_square)
  then have lo: "real R \<le> sqrt (real X)" by (rule real_le_rsqrt)
  have "real X < real (R + 1) * real (R + 1)"
    using assms(2) by (metis of_nat_less_iff of_nat_mult)
  then have "real X < (real (R + 1))\<^sup>2" by (simp add: power2_eq_square)
  then have hi: "sqrt (real X) < real (R + 1)"
    by (rule real_less_lsqrt [rotated 1]) simp
  show ?thesis using lo hi by (simp add: floor_eq_iff)
qed

lemma sqrt_unsigned:
  fixes a :: "32 word"
  shows "\<exists>R. unat (sqrt_loop a 0 (sqrt_shrink a (push_bit 30 1))) = R \<and>
             R * R \<le> unat a \<and> unat a < (R + 1) * (R + 1)"
proof -
  have "unat (push_bit 30 1 :: 32 word) = 4 ^ 16 div 4" by simp
  moreover have "unat a < 4 ^ 16" using unsigned_less [of a, where ?'a = nat] by simp
  ultimately obtain j where j: "j \<le> 16" "unat a < 4 ^ j"
      "unat (sqrt_shrink a (push_bit 30 1)) = 4 ^ j div 4"
    using sqrt_shrink_spec [of "push_bit 30 1" 16 a] by blast
  have "(2::nat) ^ j \<le> 2 ^ 16" using j(1) by (rule power_increasing) simp
  then show ?thesis
    using sqrt_loop_spec [of "sqrt_shrink a (push_bit 30 1)" j 0 0 a "unat a"] j
    by simp
qed

lemma sqrt_result_small:
  fixes R X :: nat
  assumes "R * R \<le> X" "X < 2 ^ 32"
  shows "R < 2 ^ 16"
proof (rule ccontr)
  assume "\<not> R < 2 ^ 16"
  then have "(2::nat) ^ 16 \<le> R" by simp
  from this this have "(2::nat) ^ 16 * 2 ^ 16 \<le> R * R" by (rule mult_le_mono)
  with assms show False by simp
qed

lemma TPE_sqrt_nonneg:
  assumes "0 \<le>s v"
  shows "\<exists>R. TPE_sqrt v = of_nat R \<and> R < 2 ^ 16 \<and> R * R \<le> nat (sint v) \<and>
             nat (sint v) < (R + 1) * (R + 1)"
proof -
  have nn: "0 \<le> sint v" using assms by (simp add: word_sle_eq)
  then have u: "unat v = nat (sint v)"
    using uint_sint_nonneg [of v] by (simp add: unat_eq_nat_uint)
  obtain R where R: "unat (sqrt_loop v 0 (sqrt_shrink v (push_bit 30 1))) = R"
      "R * R \<le> unat v" "unat v < (R + 1) * (R + 1)"
    using sqrt_unsigned [of v] by blast
  have "unat v < 2 ^ 32" using unsigned_less [of v, where ?'a = nat] by simp
  with R(2) have small: "R < 2 ^ 16" by (rule sqrt_result_small)
  have "\<not> v <s 0" using nn by (simp add: word_sless_alt)
  then have "TPE_sqrt v = sqrt_loop v 0 (sqrt_shrink v (push_bit 30 1))"
    by (simp add: TPE_sqrt_def Let_def)
  also have "\<dots> = of_nat R" unfolding R(1) [symmetric] by simp
  finally show ?thesis using R small u by auto
qed

text \<open>
  C6.  For every \<open>x \<ge> 0\<close>, \<^verbatim>\<open>TPE_sqrt\<close> returns exactly \<open>\<lfloor>\<surd>x\<rfloor>\<close>; for every \<open>x\<close> with
  \<open>-2\<^sup>3\<^sup>1 < x < 0\<close> it returns \<open>- TPE_sqrt (- x)\<close>.
\<close>

theorem TPE_sqrt_floor:
  "(0 \<le>s v \<longrightarrow> sint (TPE_sqrt v) = \<lfloor>sqrt (real_of_int (sint v))\<rfloor>) \<and>
   (v <s 0 \<and> - (2 ^ 31) < sint v \<longrightarrow> TPE_sqrt v = - TPE_sqrt (- v))"
proof (intro conjI impI)
  assume nn: "0 \<le>s v"
  then obtain R where R: "TPE_sqrt v = of_nat R" "R < 2 ^ 16" "R * R \<le> nat (sint v)"
      "nat (sint v) < (R + 1) * (R + 1)"
    using TPE_sqrt_nonneg by blast
  have "0 \<le> sint v" using nn by (simp add: word_sle_eq)
  then have "real_of_int (sint v) = real (nat (sint v))" by simp
  then have "\<lfloor>sqrt (real_of_int (sint v))\<rfloor> = int R"
    using floor_sqrt_eq [OF R(3,4)] by simp
  moreover have "sint (TPE_sqrt v) = int R"
    using R(1,2) by (simp add: sint_of_nat_small)
  ultimately show "sint (TPE_sqrt v) = \<lfloor>sqrt (real_of_int (sint v))\<rfloor>" by simp
next
  assume neg: "v <s 0 \<and> - (2 ^ 31) < sint v"
  then have lt: "sint v < 0" by (simp add: word_sless_alt)
  have "sint (- v) = signed_take_bit 31 (- sint v)" by (simp add: sint_word_ariths)
  also have "\<dots> = - sint v"
    using neg lt by (intro signed_take_bit_int_eq_self) simp_all
  finally have "0 < sint (- v)" using lt by simp
  then have pos: "\<not> - v <s 0" by (simp add: word_sless_alt)
  have "TPE_sqrt v = sqrt_loop (- v) 0 (sqrt_shrink (- v) (push_bit 30 1)) * (- 1)"
    using neg by (simp add: TPE_sqrt_def Let_def)
  moreover have "TPE_sqrt (- v) = sqrt_loop (- v) 0 (sqrt_shrink (- v) (push_bit 30 1))"
    using pos by (simp add: TPE_sqrt_def Let_def)
  ultimately show "TPE_sqrt v = - TPE_sqrt (- v)" by simp
qed

theorem TPE_sqrt_floor_witness:
  "(0::32 word) \<le>s 17 \<and> sint (TPE_sqrt 17) = \<lfloor>sqrt (real_of_int (sint (17::32 word)))\<rfloor> \<and>
   (- 17 :: 32 word) <s 0 \<and> - (2 ^ 31) < sint (- 17 :: 32 word) \<and>
   TPE_sqrt (- 17) = - TPE_sqrt (- (- 17))"
  using TPE_sqrt_floor [of 17] TPE_sqrt_floor [of "- 17"]
  by (simp add: word_sle_eq word_sless_alt)

subsection \<open>Some values\<close>

lemma TPE_sqrt_zero: "TPE_sqrt 0 = 0"
  by code_simp

lemma TPE_sqrt_262144: "TPE_sqrt 262144 = 512"
  by code_simp

lemma TPE_sqrt_1000000: "TPE_sqrt 1000000 = 1000"
  by code_simp

section \<open>Normalising the zero vector\<close>

text \<open>
  C9.  Normalising the zero vector \<open>(0,0,0)\<close> with \<^verbatim>\<open>TPE_vec3Normalize\<close> gives exactly
  \<open>(F,0,0)\<close>, whatever the fourth component, which the function never touches.
\<close>

theorem TPE_vec3Normalize_zero:
  "TPE_vec3Normalize (TPE_vec4 0 0 0 d) = TPE_vec4 TPE_FRACTIONS_PER_UNIT 0 0 d"
  by (simp add: TPE_vec3Normalize_def TPE_vec3Len_def TPE_vec4_def TPE_sqrt_zero)

section \<open>The anti-zero multiplication\<close>

lemma TPE_timesAntiZero_nonneg_product:
  assumes "0 \<le> sint a * sint b" "sint a * sint b < 2 ^ 31"
  shows "TPE_timesAntiZero a b =
     (if 512 \<le> sint a * sint b then word_of_int ((sint a * sint b) sdiv 512)
      else if sint a * sint b = 0 then 0 else 1)"
proof -
  define q where "q = sint a * sint b"
  have r: "- (2 ^ 31) \<le> q" "q < 2 ^ 31" using assms by (simp_all add: q_def)
  have ab: "a * b = word_of_int q" by (simp add: q_def)
  have s: "sint (word_of_int q :: 32 word) = q" using r by (rule sint_word_of_int_32)
  have z: "(word_of_int q :: 32 word) = 0 \<longleftrightarrow> q = 0" using r by (rule word_of_int_eq_0_32)
  have "c_div (word_of_int q) (word_of_int 512) = (word_of_int (q sdiv 512) :: 32 word)"
    using r by (intro c_div_of_int) simp_all
  then have d: "c_div (word_of_int q) 512 = (word_of_int (q sdiv 512) :: 32 word)" by simp
  show ?thesis
    unfolding TPE_timesAntiZero_def Let_def ab TPE_FRACTIONS_PER_UNIT_def q_def [symmetric]
    by (simp add: word_sle_eq s z d)
qed

lemma TPE_timesAntiZero_negative:
  assumes "sint a * sint b < 0" "- (2 ^ 31) \<le> sint a * sint b"
  shows "TPE_timesAntiZero a b = 1"
proof -
  define q where "q = sint a * sint b"
  have r: "- (2 ^ 31) \<le> q" "q < 2 ^ 31" using assms by (simp_all add: q_def)
  have ab: "a * b = word_of_int q" by (simp add: q_def)
  have s: "sint (word_of_int q :: 32 word) = q" using r by (rule sint_word_of_int_32)
  have z: "(word_of_int q :: 32 word) = 0 \<longleftrightarrow> q = 0" using r by (rule word_of_int_eq_0_32)
  show ?thesis
    unfolding TPE_timesAntiZero_def Let_def ab TPE_FRACTIONS_PER_UNIT_def
    using assms(1) by (simp add: word_sle_eq s z q_def [symmetric])
qed

text \<open>
  C1.  \<^verbatim>\<open>TPE_timesAntiZero\<close> tests \<^verbatim>\<open>result >= TPE_FRACTIONS_PER_UNIT\<close> on the signed
  product, so every negative product falls into the branch meant for the small ones
  and comes back as \<open>1\<close>: for \<open>a = -1024\<close> and \<open>b = 1\<close> the normalised product
  \<open>a * b / F\<close> is \<open>-2\<close>, and the function returns \<open>1\<close>.
\<close>

theorem TPE_timesAntiZero_negative_product:
  "TPE_timesAntiZero (- 1024) 1 = 1 \<and> c_div (- 1024 * 1) TPE_FRACTIONS_PER_UNIT = - 2"
  by (simp add: TPE_timesAntiZero_def TPE_FRACTIONS_PER_UNIT_def c_div_def
      signed_divide_int_def)

section \<open>The elastic collision of equal masses\<close>

text \<open>
  C10.  Equal masses \<open>m\<close> with \<open>0 < m \<le> 30000\<close>, distinct velocities of absolute value at
  most \<open>30000\<close>, elasticity \<open>F\<close>: \<^verbatim>\<open>TPE_getVelocitiesAfterCollision\<close> swaps the two
  velocities exactly.
\<close>

theorem equal_mass_elastic_swap:
  assumes m: "0 <s m" "m \<le>s 30000"
    and v1: "- 30000 \<le>s v1" "v1 \<le>s 30000"
    and v2: "- 30000 \<le>s v2" "v2 \<le>s 30000"
    and ne: "v1 \<noteq> v2"
  shows "TPE_getVelocitiesAfterCollision v1 v2 m m TPE_FRACTIONS_PER_UNIT = (v2, v1)"
proof -
  define k where "k = sint m"
  define a where "a = sint v1"
  define b where "b = sint v2"
  have k: "0 < k" "k \<le> 30000"
    using m by (simp_all add: k_def word_sless_alt word_sle_eq)
  have a: "\<bar>a\<bar> \<le> 30000"
    using v1 by (simp add: a_def word_sle_eq)
  have b: "\<bar>b\<bar> \<le> 30000"
    using v2 by (simp add: b_def word_sle_eq)
  have mw: "m = word_of_int k" and aw: "v1 = word_of_int a" and bw: "v2 = word_of_int b"
    by (simp_all add: k_def a_def b_def)
  have nod: "\<not> 30000 <s m" "\<not> 30000 <s v1" "\<not> 30000 <s v2"
    using m v1 v2 by (simp_all add: word_sless_alt word_sle_eq)
  have "c_div (word_of_int (512 * k)) (word_of_int 512) = (word_of_int ((512 * k) sdiv 512) :: 32 word)"
    using k by (intro c_div_of_int) simp_all
  then have em: "c_div (512 * m) 512 = m"
    by (simp add: mw sdiv_mult_cancel_left)
  have "sint (word_of_int (2 * k) :: 32 word) = 2 * k"
    using k by (intro sint_word_of_int_32) simp_all
  then have "(word_of_int (2 * k) :: 32 word) \<noteq> 0" using k by auto
  then have mm: "TPE_nonZero (m + m) = word_of_int (2 * k)"
    by (simp add: TPE_nonZero_def mw)
  have vv: "TPE_nonZero (v2 - v1) = v2 - v1"
    using ne by (simp add: TPE_nonZero_def)
  have kb: "\<bar>2 * k * b\<bar> \<le> 60000 * 30000"
    using k b by (intro abs_mult_bound) simp_all
  have ka: "\<bar>2 * k * a\<bar> \<le> 60000 * 30000"
    using k a by (intro abs_mult_bound) simp_all
  have n1: "m * (v2 - v1) + (m * v1 + m * v2) = word_of_int (2 * k * b)"
    by (simp add: mw aw bw algebra_simps)
  have n2: "m * (- 1) * (v2 - v1) + (m * v1 + m * v2) = word_of_int (2 * k * a)"
    by (simp add: mw aw bw algebra_simps)
  note rb = abs_bound_range32 [OF kb]
  note ra = abs_bound_range32 [OF ka]
  have rk: "- (2 ^ 31) \<le> 2 * k" "2 * k < 2 ^ 31"
    using k by simp_all
  have "c_div (word_of_int (2 * k * b)) (word_of_int (2 * k)) = (word_of_int ((2 * k * b) sdiv (2 * k)) :: 32 word)"
    using rb rk by (rule c_div_of_int)
  then have d1: "c_div (word_of_int (2 * k * b)) (word_of_int (2 * k)) = v2"
    using k sdiv_mult_cancel_left [of "2 * k" b] by (simp add: bw mult.assoc)
  have "c_div (word_of_int (2 * k * a)) (word_of_int (2 * k)) = (word_of_int ((2 * k * a) sdiv (2 * k)) :: 32 word)"
    using ra rk by (rule c_div_of_int)
  then have d2: "c_div (word_of_int (2 * k * a)) (word_of_int (2 * k)) = v1"
    using k sdiv_mult_cancel_left [of "2 * k" a] by (simp add: aw mult.assoc)
  show ?thesis
    unfolding TPE_getVelocitiesAfterCollision_def Let_def TPE_FRACTIONS_PER_UNIT_def
    by (simp only: nod em mm vv n1 n2 d1 d2 simp_thms if_False)
qed

theorem equal_mass_elastic_swap_witness:
  "(0::32 word) <s 1000 \<and> (1000::32 word) \<le>s 30000 \<and>
   (- 30000 :: 32 word) \<le>s 100 \<and> (100::32 word) \<le>s 30000 \<and>
   (- 30000 :: 32 word) \<le>s - 50 \<and> (- 50 :: 32 word) \<le>s 30000 \<and> (100::32 word) \<noteq> - 50 \<and>
   TPE_getVelocitiesAfterCollision 100 (- 50) 1000 1000 TPE_FRACTIONS_PER_UNIT = (- 50, 100)"
  using equal_mass_elastic_swap [of 1000 100 "- 50"]
  by (simp add: word_sless_alt word_sle_eq)

section \<open>Sine and cosine from the table\<close>

lemma TPE_sinTable_values:
  "TPE_sinTable =
     [0, 6, 12, 18, 25, 31, 37, 43,
      50, 56, 62, 68, 74, 81, 87, 93,
      99, 105, 111, 118, 124, 130, 136, 142,
      148, 154, 160, 166, 172, 178, 183, 189,
      195, 201, 207, 212, 218, 224, 229, 235,
      240, 246, 251, 257, 262, 268, 273, 278,
      283, 289, 294, 299, 304, 309, 314, 319,
      324, 328, 333, 338, 343, 347, 352, 356,
      361, 365, 370, 374, 378, 382, 386, 391,
      395, 398, 402, 406, 410, 414, 417, 421,
      424, 428, 431, 435, 438, 441, 444, 447,
      450, 453, 456, 459, 461, 464, 467, 469,
      472, 474, 476, 478, 481, 483, 485, 487,
      488, 490, 492, 494, 495, 497, 498, 499,
      501, 502, 503, 504, 505, 506, 507, 507,
      508, 509, 509, 510, 510, 510, 510, 510]"
  unfolding TPE_sinTable_def TPE_FRACTIONS_PER_UNIT_def
  by (simp add: c_div_def signed_divide_int_def)

lemma length_TPE_sinTable: "length TPE_sinTable = 128"
  by (simp add: TPE_sinTable_def)

lemma TPE_SIN_TABLE_UNIT_STEP_one: "TPE_SIN_TABLE_UNIT_STEP = 1"
  by (simp add: TPE_SIN_TABLE_UNIT_STEP_def TPE_SIN_TABLE_LENGTH_def TPE_FRACTIONS_PER_UNIT_def
      c_div_def signed_divide_int_def)

lemma TPE_wrap_range:
  "0 \<le> sint (TPE_wrap v 512) \<and> sint (TPE_wrap v 512) < 512"
proof (cases "0 \<le> sint v")
  case True
  then have "sint v smod 512 = sint v mod 512"
    by (simp add: signed_modulo_int_def mult_sgn_abs sgn_if)
  moreover have "sint (word_of_int (sint v mod 512) :: 32 word) = sint v mod 512"
    by (intro sint_word_of_int_32) (simp_all add: order_trans [of _ 0])
  ultimately show ?thesis
    using True by (simp add: TPE_wrap_def c_mod_def word_sle_eq)
next
  case False
  define r where "r = (- sint v) mod 512"
  have r: "0 \<le> r" "r < 512" by (simp_all add: r_def)
  from False have "sint v smod 512 = - r"
    by (simp add: signed_modulo_int_def sgn_if r_def)
  then have "TPE_wrap v 512 = word_of_int (511 - r)"
    using False by (simp add: TPE_wrap_def c_mod_def word_sle_eq)
  moreover have "sint (word_of_int (511 - r) :: 32 word) = 511 - r"
    using r by (intro sint_word_of_int_32) simp_all
  ultimately show ?thesis using r by simp
qed

lemma TPE_wrap_sin_arg:
  assumes "0 \<le> k" "k < 2 ^ 31"
  shows "TPE_wrap (c_div (word_of_int k) TPE_SIN_TABLE_UNIT_STEP) (TPE_SIN_TABLE_LENGTH * 4)
       = word_of_int (k mod 512)"
proof -
  have s: "sint (word_of_int k :: 32 word) = k"
    using assms by (intro sint_word_of_int_32) simp_all
  have d: "c_div (word_of_int k) TPE_SIN_TABLE_UNIT_STEP = word_of_int k"
    by (simp add: TPE_SIN_TABLE_UNIT_STEP_one c_div_def)
  have "k smod 512 = k mod 512"
    using assms(1) by (simp add: signed_modulo_int_def mult_sgn_abs sgn_if)
  then have "c_mod (word_of_int k) 512 = word_of_int (k mod 512)"
    by (simp add: c_mod_def s)
  then show ?thesis
    using assms(1) by (simp add: d TPE_wrap_def TPE_SIN_TABLE_LENGTH_def word_sle_eq s)
qed

lemma sin_branches:
  assumes "0 \<le> m" "m < 512"
  shows "(let a = (word_of_int m :: 32 word)
          in if a <s 128 then TPE_sinTable ! unat a
             else if a <s 128 * 2 then TPE_sinTable ! unat (128 * 2 - a - 1)
             else if a <s 128 * 3 then (- 1) * TPE_sinTable ! unat (a - 128 * 2)
             else (- 1) * TPE_sinTable ! unat (128 - (a - 128 * 3) - 1))
       = sin_quadrants m"
proof -
  have s: "sint (word_of_int m :: 32 word) = m"
    using assms by (intro sint_word_of_int_32) simp_all
  have u0: "unat (word_of_int m :: 32 word) = nat m"
    using assms by (intro unat_word_of_int_32) simp_all
  have "(128 * 2 - word_of_int m - 1 :: 32 word) = word_of_int (255 - m)" by simp
  moreover have "m \<le> 255 \<Longrightarrow> unat (word_of_int (255 - m) :: 32 word) = nat (255 - m)"
    using assms by (intro unat_word_of_int_32) simp_all
  ultimately have u1: "m \<le> 255 \<Longrightarrow> unat (128 * 2 - word_of_int m - 1 :: 32 word) = nat (255 - m)"
    by simp
  have "(word_of_int m - 128 * 2 :: 32 word) = word_of_int (m - 256)" by simp
  moreover have "256 \<le> m \<Longrightarrow> unat (word_of_int (m - 256) :: 32 word) = nat (m - 256)"
    using assms by (intro unat_word_of_int_32) simp_all
  ultimately have u2: "256 \<le> m \<Longrightarrow> unat (word_of_int m - 128 * 2 :: 32 word) = nat (m - 256)"
    by simp
  have "(128 - (word_of_int m - 128 * 3) - 1 :: 32 word) = word_of_int (511 - m)" by simp
  moreover have "unat (word_of_int (511 - m) :: 32 word) = nat (511 - m)"
    using assms by (intro unat_word_of_int_32) simp_all
  ultimately have u3: "unat (128 - (word_of_int m - 128 * 3) - 1 :: 32 word) = nat (511 - m)"
    by simp
  show ?thesis
    unfolding Let_def sin_quadrants_def
    using u1 u2 by (simp only: word_sless_alt s u0 u3) auto
qed

lemma TPE_sin_index_in_table:
  "\<exists>m. 0 \<le> m \<and> m < 512 \<and> TPE_sin a = sin_quadrants m"
proof -
  define w where "w = TPE_wrap (c_div a TPE_SIN_TABLE_UNIT_STEP) (TPE_SIN_TABLE_LENGTH * 4)"
  define m where "m = sint w"
  have "TPE_SIN_TABLE_LENGTH * 4 = 512" by (simp add: TPE_SIN_TABLE_LENGTH_def)
  then have m: "0 \<le> m" "m < 512"
    using TPE_wrap_range [of "c_div a TPE_SIN_TABLE_UNIT_STEP"] by (simp_all add: m_def w_def)
  have w: "w = word_of_int m" by (simp add: m_def)
  have we: "TPE_wrap (c_div a TPE_SIN_TABLE_UNIT_STEP) (TPE_SIN_TABLE_LENGTH * 4) = word_of_int m"
    using w by (simp only: w_def)
  have "TPE_sin a = sin_quadrants m"
    using sin_branches [OF m]
    unfolding TPE_sin_def we
    unfolding TPE_SIN_TABLE_LENGTH_def .
  with m show ?thesis by blast
qed

lemma sin_quadrants_reads_table:
  assumes "0 \<le> m" "m < 512"
  shows "sin_quadrants m \<in> set TPE_sinTable \<or> - sin_quadrants m \<in> set TPE_sinTable"
  using assms by (auto simp add: sin_quadrants_def length_TPE_sinTable intro!: nth_mem)

lemma TPE_sin_of_int:
  assumes "0 \<le> k" "k < 2 ^ 31"
  shows "TPE_sin (word_of_int k) = sin_quadrants (k mod 512)"
proof -
  have "0 \<le> k mod 512" "k mod 512 < 512" by simp_all
  from sin_branches [OF this] show ?thesis
    unfolding TPE_sin_def TPE_wrap_sin_arg [OF assms]
    unfolding TPE_SIN_TABLE_LENGTH_def .
qed

lemma TPE_cos_of_int:
  assumes "0 \<le> k" "k < 512"
  shows "TPE_cos (word_of_int k) = sin_quadrants ((k + 128) mod 512)"
proof -
  have "c_div TPE_FRACTIONS_PER_UNIT 4 = 128"
    by (simp add: TPE_FRACTIONS_PER_UNIT_def c_div_def signed_divide_int_def)
  then have "TPE_cos (word_of_int k) = TPE_sin (word_of_int (k + 128))"
    by (simp add: TPE_cos_def)
  also have "\<dots> = sin_quadrants ((k + 128) mod 512)"
    using assms by (intro TPE_sin_of_int) simp_all
  finally show ?thesis .
qed

lemma TPE_sin_64: "TPE_sin 64 = 361"
  unfolding TPE_sin_def TPE_wrap_def TPE_SIN_TABLE_UNIT_STEP_def TPE_SIN_TABLE_LENGTH_def
    TPE_FRACTIONS_PER_UNIT_def TPE_sinTable_values
  by (simp add: c_div_def c_mod_def signed_divide_int_def signed_modulo_int_def
      word_sle_eq word_sless_alt)

lemma TPE_cos_64: "TPE_cos 64 = 356"
  unfolding TPE_cos_def TPE_sin_def TPE_wrap_def TPE_SIN_TABLE_UNIT_STEP_def TPE_SIN_TABLE_LENGTH_def
    TPE_FRACTIONS_PER_UNIT_def TPE_sinTable_values
  by (simp add: c_div_def c_mod_def signed_divide_int_def signed_modulo_int_def
      word_sle_eq word_sless_alt)

subsection \<open>The Pythagorean identity\<close>

lemma sinTable_pairs_checked:
  "list_all (\<lambda>(s, c). fixed_square_sum_error (s * s) (c * c) \<le> 11)
     (zip TPE_sinTable (rev TPE_sinTable))"
  unfolding TPE_sinTable_values fixed_square_sum_error_def TPE_FRACTIONS_PER_UNIT_def
  by (simp add: c_div_def signed_divide_int_def)

lemma sin_cos_squares_from_table:
  assumes "0 \<le> k" "k < 512"
  shows "\<exists>j<128. TPE_sin (word_of_int k) * TPE_sin (word_of_int k)
                   = TPE_sinTable ! j * TPE_sinTable ! j \<and>
                 TPE_cos (word_of_int k) * TPE_cos (word_of_int k)
                   = TPE_sinTable ! (127 - j) * TPE_sinTable ! (127 - j)"
proof -
  have sn: "TPE_sin (word_of_int k) = sin_quadrants k"
    using assms TPE_sin_of_int [of k] by simp
  note cs = TPE_cos_of_int [OF assms]
  consider "k < 128" | "128 \<le> k" "k < 256" | "256 \<le> k" "k < 384" | "384 \<le> k"
    by linarith
  then show ?thesis
  proof cases
    case 1
    then have "(k + 128) mod 512 = k + 128" using assms by simp
    with 1 assms have "TPE_sin (word_of_int k) = TPE_sinTable ! nat k"
        "TPE_cos (word_of_int k) = TPE_sinTable ! (127 - nat k)"
      by (simp_all add: sn cs sin_quadrants_def nat_diff_distrib')
    with 1 assms show ?thesis by (intro exI [of _ "nat k"]) simp
  next
    case 2
    then have "(k + 128) mod 512 = k + 128" by simp
    with 2 have "TPE_sin (word_of_int k) = TPE_sinTable ! nat (255 - k)"
        "TPE_cos (word_of_int k) = - (TPE_sinTable ! (127 - nat (255 - k)))"
      by (simp_all add: sn cs sin_quadrants_def nat_diff_distrib')
    with 2 show ?thesis by (intro exI [of _ "nat (255 - k)"]) simp
  next
    case 3
    then have "(k + 128) mod 512 = k + 128" by simp
    with 3 have "TPE_sin (word_of_int k) = - (TPE_sinTable ! nat (k - 256))"
        "TPE_cos (word_of_int k) = - (TPE_sinTable ! (127 - nat (k - 256)))"
      by (simp_all add: sn cs sin_quadrants_def nat_diff_distrib')
    with 3 show ?thesis by (intro exI [of _ "nat (k - 256)"]) simp
  next
    case 4
    have "k + 128 = 512 * 1 + (k - 384)" by simp
    then have "(k + 128) mod 512 = k - 384"
      using 4 assms by (intro int_mod_pos_eq [where q = 1]) simp_all
    with 4 assms have "TPE_sin (word_of_int k) = - (TPE_sinTable ! nat (511 - k))"
        "TPE_cos (word_of_int k) = TPE_sinTable ! (127 - nat (511 - k))"
      by (simp_all add: sn cs sin_quadrants_def nat_diff_distrib')
    with 4 assms show ?thesis by (intro exI [of _ "nat (511 - k)"]) simp
  qed
qed

text \<open>
  C5.  For every angle \<open>a\<close> in \<open>[0, F)\<close> the fixed-point sum \<open>sin\<^sup>2 / F + cos\<^sup>2 / F\<close> differs
  from \<open>F\<close> by at most \<open>11\<close>.  The bound cannot be lowered: at \<open>a = 47\<close> the difference is
  \<open>11\<close>, so the tolerance of about \<open>F / 100 = 5\<close> does not hold.
\<close>

theorem trig_identity_error_bound:
  assumes "0 \<le>s a" "a <s TPE_FRACTIONS_PER_UNIT"
  shows "trig_identity_error a \<le> 11"
proof -
  define k where "k = sint a"
  have k: "0 \<le> k" "k < 512"
    using assms by (simp_all add: k_def word_sle_eq word_sless_alt TPE_FRACTIONS_PER_UNIT_def)
  have a: "a = word_of_int k" by (simp add: k_def)
  obtain j where j: "j < 128"
      "TPE_sin a * TPE_sin a = TPE_sinTable ! j * TPE_sinTable ! j"
      "TPE_cos a * TPE_cos a = TPE_sinTable ! (127 - j) * TPE_sinTable ! (127 - j)"
    using sin_cos_squares_from_table [OF k] unfolding a by blast
  have "zip TPE_sinTable (rev TPE_sinTable) ! j = (TPE_sinTable ! j, TPE_sinTable ! (127 - j))"
    using j(1) by (simp add: length_TPE_sinTable rev_nth)
  moreover have "j < length (zip TPE_sinTable (rev TPE_sinTable))"
    using j(1) by (simp add: length_TPE_sinTable)
  ultimately have "fixed_square_sum_error (TPE_sinTable ! j * TPE_sinTable ! j)
      (TPE_sinTable ! (127 - j) * TPE_sinTable ! (127 - j)) \<le> 11"
    using sinTable_pairs_checked unfolding list_all_length by fastforce
  then show ?thesis by (simp add: trig_identity_error_def j(2,3))
qed

theorem trig_identity_error_bound_witness:
  "(0::32 word) \<le>s 47 \<and> (47::32 word) <s TPE_FRACTIONS_PER_UNIT \<and> trig_identity_error 47 \<le> 11"
  using trig_identity_error_bound [of 47]
  by (simp add: word_sle_eq word_sless_alt TPE_FRACTIONS_PER_UNIT_def)

theorem trig_identity_error_at_47:
  "(0::32 word) \<le>s 47 \<and> (47::32 word) <s TPE_FRACTIONS_PER_UNIT \<and>
   trig_identity_error 47 = 11 \<and> \<not> trig_identity_error 47 \<le> 5"
proof -
  have "trig_identity_error 47 = 11"
    unfolding trig_identity_error_def fixed_square_sum_error_def TPE_sin_def TPE_cos_def
      TPE_wrap_def TPE_SIN_TABLE_UNIT_STEP_def TPE_SIN_TABLE_LENGTH_def TPE_FRACTIONS_PER_UNIT_def
      TPE_sinTable_values
    by (simp add: c_div_def c_mod_def signed_divide_int_def signed_modulo_int_def
        word_sle_eq word_sless_alt)
  then show ?thesis
    by (simp add: word_sle_eq word_sless_alt TPE_FRACTIONS_PER_UNIT_def)
qed

section \<open>The closest point of a segment\<close>

lemma dot_int_bound:
  assumes "coords_within 26000 u" "coords_within 26000 v"
  shows "\<bar>dot_int u v\<bar> \<le> 3 * (26000 * 26000)"
proof -
  have "\<bar>sint (vec_x u) * sint (vec_x v)\<bar> \<le> 26000 * 26000"
       "\<bar>sint (vec_y u) * sint (vec_y v)\<bar> \<le> 26000 * 26000"
       "\<bar>sint (vec_z u) * sint (vec_z v)\<bar> \<le> 26000 * 26000"
    using assms by (auto simp only: coords_within_def intro!: abs_mult_bound)
  then show ?thesis unfolding dot_int_def by linarith
qed

lemma dot_int_range:
  assumes "coords_within 26000 u" "coords_within 26000 v"
  shows "- (2 ^ 31) \<le> dot_int u v" "dot_int u v < 2 ^ 31"
  using dot_int_bound [OF assms] by simp_all

lemma dot_plain_of_int: "TPE_vec3DotProductPlain u v = word_of_int (dot_int u v)"
  by (simp add: TPE_vec3DotProductPlain_def dot_int_def)

lemma sint_dot_plain:
  assumes "coords_within 26000 u" "coords_within 26000 v"
  shows "sint (TPE_vec3DotProductPlain u v) = dot_int u v"
  unfolding dot_plain_of_int using dot_int_range [OF assms] by (rule sint_word_of_int_32)

lemma dot_of_int:
  assumes "coords_within 26000 u" "coords_within 26000 v"
  shows "TPE_vec3DotProduct u v = word_of_int (dot_int u v sdiv 512)"
proof -
  have "TPE_vec3DotProduct u v = c_div (word_of_int (dot_int u v)) (word_of_int 512)"
    by (simp add: TPE_vec3DotProduct_def dot_int_def TPE_FRACTIONS_PER_UNIT_def)
  also have "\<dots> = word_of_int (dot_int u v sdiv 512)"
    using dot_int_range [OF assms] by (intro c_div_of_int) simp_all
  finally show ?thesis .
qed

text \<open>
  Queries on the line through \<open>a\<close> and \<open>b\<close>, with \<open>u = b - a\<close> and \<open>v = p - a\<close>: when
  \<open>n * v = - m * u\<close> for integers \<open>n > 0\<close> and \<open>m \<ge> 0\<close> the query lies on the extension past
  \<open>a\<close>, and its exact dot product with \<open>u\<close> is at most \<open>0\<close>; when \<open>n * v = m * u\<close> with
  \<open>m \<ge> n > 0\<close> it lies on the extension past \<open>b\<close>, and the dot product is at least that of
  \<open>u\<close> with itself.  These are the hypotheses of the two lemmas that follow.
\<close>

lemma dot_int_self_nonneg: "0 \<le> dot_int u u"
  by (simp add: dot_int_def)

lemma extension_past_start_projects_before:
  fixes n m :: int
  assumes "0 < n" "0 \<le> m"
    and "n * sint (vec_x v) = - (m * sint (vec_x u))"
    and "n * sint (vec_y v) = - (m * sint (vec_y u))"
    and "n * sint (vec_z v) = - (m * sint (vec_z u))"
  shows "dot_int u v \<le> 0"
proof -
  have "n * dot_int u v = sint (vec_x u) * (n * sint (vec_x v))
      + sint (vec_y u) * (n * sint (vec_y v)) + sint (vec_z u) * (n * sint (vec_z v))"
    by (simp add: dot_int_def algebra_simps)
  also have "\<dots> = - (m * dot_int u u)"
    unfolding assms(3-5) by (simp add: dot_int_def algebra_simps)
  finally have "n * dot_int u v = - (m * dot_int u u)" .
  moreover have "0 \<le> m * dot_int u u"
    using assms(2) dot_int_self_nonneg by (rule mult_nonneg_nonneg)
  ultimately have "n * dot_int u v \<le> 0" by simp
  with assms(1) show ?thesis by (simp add: mult_le_0_iff)
qed

lemma extension_past_end_projects_beyond:
  fixes n m :: int
  assumes "0 < n" "n \<le> m"
    and "n * sint (vec_x v) = m * sint (vec_x u)"
    and "n * sint (vec_y v) = m * sint (vec_y u)"
    and "n * sint (vec_z v) = m * sint (vec_z u)"
  shows "dot_int u u \<le> dot_int u v"
proof -
  have "n * dot_int u v = sint (vec_x u) * (n * sint (vec_x v))
      + sint (vec_y u) * (n * sint (vec_y v)) + sint (vec_z u) * (n * sint (vec_z v))"
    by (simp add: dot_int_def algebra_simps)
  also have "\<dots> = m * dot_int u u"
    unfolding assms(3-5) by (simp add: dot_int_def algebra_simps)
  finally have e: "n * dot_int u v = m * dot_int u u" .
  have "n * dot_int u u \<le> m * dot_int u u"
    using assms(2) dot_int_self_nonneg by (rule mult_right_mono)
  with e have "n * dot_int u u \<le> n * dot_int u v" by simp
  with assms(1) show ?thesis by simp
qed

lemma closest_point_before_start:
  assumes ab: "coords_within 26000 (TPE_vec3Minus b a)"
    and ap: "coords_within 26000 (TPE_vec3Minus p a)"
    and le: "dot_int (TPE_vec3Minus b a) (TPE_vec3Minus p a) \<le> 0"
  shows "TPE_lineSegmentClosestPoint a b p = a"
proof -
  define u where "u = TPE_vec3Minus b a"
  define v where "v = TPE_vec3Minus p a"
  define D where "D = dot_int u v"
  define L where "L = dot_int u u"
  define d1 where "d1 = D sdiv 512"
  define d2 where "d2 = L sdiv 512"
  define n2 where "n2 = (if d2 = 0 then 1 else d2)"
  define t0 where "t0 = (d1 * 512) sdiv n2"
  have D0: "D \<le> 0" using le by (simp add: D_def u_def v_def)
  have Dr: "- (2 ^ 31) \<le> D" "D < 2 ^ 31"
    unfolding D_def u_def v_def using ab ap by (rule dot_int_range)+
  have Lr: "- (2 ^ 31) \<le> L" "L < 2 ^ 31"
    unfolding L_def u_def using ab ab by (rule dot_int_range)+
  have L0: "0 \<le> L" by (simp add: L_def dot_int_def)
  have d1: "d1 \<le> 0" "D \<le> d1"
    unfolding d1_def using D0 by (intro sdiv_nonpos_bounds; simp)+
  have d2: "0 \<le> d2" "d2 \<le> L"
    unfolding d2_def using L0 by (intro sdiv_nonneg_bounds; simp)+
  have n2: "0 < n2" "n2 < 2 ^ 31"
    using d2 Lr by (simp_all add: n2_def)
  have "(word_of_int d2 :: 32 word) = 0 \<longleftrightarrow> d2 = 0"
    using d2 Lr by (intro word_of_int_eq_0_32) simp_all
  then have nz: "TPE_nonZero (word_of_int d2) = word_of_int n2"
    by (simp add: TPE_nonZero_def n2_def)
  have m5: "\<bar>d1 * 512\<bar> \<le> \<bar>D\<bar>"
    unfolding d1_def by (intro sdiv_times_bounds) simp
  have m5r: "- (2 ^ 31) \<le> d1 * 512" "d1 * 512 < 2 ^ 31" "d1 * 512 \<le> 0"
    using m5 Dr d1 by simp_all
  have t0: "t0 \<le> 0" "d1 * 512 \<le> t0"
    unfolding t0_def using m5r(3) n2(1) by (intro sdiv_nonpos_bounds; simp)+
  have "c_div (word_of_int (d1 * 512)) (word_of_int n2) = (word_of_int t0 :: 32 word)"
    unfolding t0_def using m5r(1,2) n2 by (intro c_div_of_int) simp_all
  then have tw: "c_div (word_of_int d1 * TPE_FRACTIONS_PER_UNIT) (word_of_int n2)
      = (word_of_int t0 :: 32 word)"
    by (simp add: TPE_FRACTIONS_PER_UNIT_def)
  have st: "sint (word_of_int t0 :: 32 word) = t0"
    using t0 m5r by (intro sint_word_of_int_32) simp_all
  have cl: "(if (word_of_int t0 :: 32 word) <s 0 then 0
             else if TPE_FRACTIONS_PER_UNIT <s word_of_int t0 then TPE_FRACTIONS_PER_UNIT
             else word_of_int t0) = (0 :: 32 word)"
    using t0(1) by (auto simp add: word_sless_alt st TPE_FRACTIONS_PER_UNIT_def)
  have du: "TPE_vec3DotProduct u v = word_of_int d1"
    unfolding d1_def D_def u_def v_def using ab ap by (rule dot_of_int)
  have dl: "TPE_vec3DotProduct u u = word_of_int d2"
    unfolding d2_def L_def u_def using ab ab by (rule dot_of_int)
  have z: "c_div 0 TPE_FRACTIONS_PER_UNIT = 0" by (simp add: c_div_def)
  show ?thesis
    unfolding TPE_lineSegmentClosestPoint_def Let_def u_def [symmetric] v_def [symmetric]
    unfolding du dl nz tw cl
    by (simp add: TPE_vec3Multiply_def TPE_vec3Plus_def z)
qed

lemma closest_point_past_end:
  assumes ab: "coords_within 26000 (TPE_vec3Minus b a)"
    and ap: "coords_within 26000 (TPE_vec3Minus p a)"
    and long: "512 \<le> dot_int (TPE_vec3Minus b a) (TPE_vec3Minus b a)"
    and ge: "dot_int (TPE_vec3Minus b a) (TPE_vec3Minus b a)
              \<le> dot_int (TPE_vec3Minus b a) (TPE_vec3Minus p a)"
  shows "TPE_lineSegmentClosestPoint a b p = b\<lparr>vec_w := vec_w a\<rparr>"
proof -
  define u where "u = TPE_vec3Minus b a"
  define v where "v = TPE_vec3Minus p a"
  define D where "D = dot_int u v"
  define L where "L = dot_int u u"
  define d1 where "d1 = D sdiv 512"
  define d2 where "d2 = L sdiv 512"
  define t0 where "t0 = (d1 * 512) sdiv d2"
  have L5: "512 \<le> L" using long by (simp add: L_def u_def)
  have LD: "L \<le> D" using ge by (simp add: L_def D_def u_def v_def)
  have Dr: "- (2 ^ 31) \<le> D" "D < 2 ^ 31"
    unfolding D_def u_def v_def using ab ap by (rule dot_int_range)+
  have d1e: "d1 = D div 512" unfolding d1_def using L5 LD by (intro sdiv_nonneg) simp_all
  have d2e: "d2 = L div 512" unfolding d2_def using L5 by (intro sdiv_nonneg) simp_all
  have "512 div 512 \<le> L div (512 :: int)" using L5 by (intro zdiv_mono1) simp_all
  then have d2p: "1 \<le> d2" by (simp add: d2e)
  have d21: "d2 \<le> d1" unfolding d1e d2e using LD by (intro zdiv_mono1) simp_all
  have "d1 * 512 \<le> D" unfolding d1e using div_pos_bounds(2) [of D 512] L5 LD by simp
  with Dr d2p d21 have m5: "0 \<le> d1 * 512" "d1 * 512 < 2 ^ 31" by simp_all
  have t0e: "t0 = (d1 * 512) div d2"
    unfolding t0_def using m5(1) d2p by (intro sdiv_nonneg) simp_all
  have "512 * d2 \<le> d1 * 512" using d21 by simp
  then have t5: "512 \<le> t0"
    unfolding t0e using d2p by (intro div_ge_of_mult_le) simp_all
  have "t0 \<le> d1 * 512"
    unfolding t0e using div_pos_bounds(3) [of "d1 * 512" d2] m5(1) d2p by simp
  with m5 t5 have tr: "- (2 ^ 31) \<le> t0" "t0 < 2 ^ 31" by simp_all
  have "(word_of_int d2 :: 32 word) = 0 \<longleftrightarrow> d2 = 0"
    using d2p d21 m5 by (intro word_of_int_eq_0_32) simp_all
  then have nz: "TPE_nonZero (word_of_int d2) = word_of_int d2"
    using d2p by (simp add: TPE_nonZero_def)
  have "c_div (word_of_int (d1 * 512)) (word_of_int d2) = (word_of_int t0 :: 32 word)"
    unfolding t0_def using m5 d2p d21 by (intro c_div_of_int) simp_all
  then have tw: "c_div (word_of_int d1 * TPE_FRACTIONS_PER_UNIT) (word_of_int d2)
      = (word_of_int t0 :: 32 word)"
    by (simp add: TPE_FRACTIONS_PER_UNIT_def)
  have st: "sint (word_of_int t0 :: 32 word) = t0"
    using tr by (rule sint_word_of_int_32)
  have cl: "(if (word_of_int t0 :: 32 word) <s 0 then 0
             else if TPE_FRACTIONS_PER_UNIT <s word_of_int t0 then TPE_FRACTIONS_PER_UNIT
             else word_of_int t0) = TPE_FRACTIONS_PER_UNIT"
    using t5 by (cases "t0 = 512") (auto simp add: word_sless_alt st TPE_FRACTIONS_PER_UNIT_def)
  have du: "TPE_vec3DotProduct u v = word_of_int d1"
    unfolding d1_def D_def u_def v_def using ab ap by (rule dot_of_int)
  have dl: "TPE_vec3DotProduct u u = word_of_int d2"
    unfolding d2_def L_def u_def using ab ab by (rule dot_of_int)
  have mu: "TPE_vec3Multiply u TPE_FRACTIONS_PER_UNIT u = u"
    using ab by (simp add: TPE_vec3Multiply_def coords_within_def u_def [symmetric] c_div_times_unit)
  have "TPE_vec3Plus a u = b\<lparr>vec_w := vec_w a\<rparr>"
    by (simp add: TPE_vec3Plus_def TPE_vec3Minus_def u_def)
  then show ?thesis
    unfolding TPE_lineSegmentClosestPoint_def Let_def u_def [symmetric] v_def [symmetric]
    unfolding du dl nz tw cl mu .
qed

lemma clamp_as_in_closest_point:
  "(if t <s 0 then 0 else if TPE_FRACTIONS_PER_UNIT <s t then TPE_FRACTIONS_PER_UNIT else t)
     = TPE_clamp t 0 TPE_FRACTIONS_PER_UNIT"
  by (auto simp add: TPE_clamp_def word_sless_alt word_sle_eq)

lemma closest_point_example:
  "TPE_lineSegmentClosestPoint (TPE_vec4 0 0 0 0) (TPE_vec4 100 0 0 0) (TPE_vec4 50 0 0 0)
     = TPE_vec4 47 0 0 0"
proof -
  have m: "TPE_vec3Minus (TPE_vec4 100 0 0 0) (TPE_vec4 0 0 0 0) = TPE_vec4 100 0 0 0"
      "TPE_vec3Minus (TPE_vec4 50 0 0 0) (TPE_vec4 0 0 0 0) = TPE_vec4 50 0 0 0"
    by (simp_all add: TPE_vec3Minus_def TPE_vec4_def)
  have d: "TPE_vec3DotProduct (TPE_vec4 100 0 0 0) (TPE_vec4 50 0 0 0) = 9"
      "TPE_vec3DotProduct (TPE_vec4 100 0 0 0) (TPE_vec4 100 0 0 0) = 19"
    by (simp_all add: TPE_vec3DotProduct_def TPE_vec4_def TPE_FRACTIONS_PER_UNIT_def c_div_def
        signed_divide_int_def)
  have n: "TPE_nonZero 19 = 19" by (simp add: TPE_nonZero_def)
  have t: "c_div (9 * TPE_FRACTIONS_PER_UNIT) 19 = 242"
    by (simp add: TPE_FRACTIONS_PER_UNIT_def c_div_def signed_divide_int_def)
  have c: "(if (242 :: 32 word) <s 0 then 0
            else if TPE_FRACTIONS_PER_UNIT <s 242 then TPE_FRACTIONS_PER_UNIT else 242) = 242"
    by (simp add: TPE_FRACTIONS_PER_UNIT_def word_sless_alt)
  have v: "TPE_vec3Multiply (TPE_vec4 100 0 0 0) 242 (TPE_vec4 100 0 0 0) = TPE_vec4 47 0 0 0"
    by (simp add: TPE_vec3Multiply_def TPE_vec4_def TPE_FRACTIONS_PER_UNIT_def c_div_def
        signed_divide_int_def)
  have p: "TPE_vec3Plus (TPE_vec4 0 0 0 0) (TPE_vec4 47 0 0 0) = TPE_vec4 47 0 0 0"
    by (simp add: TPE_vec3Plus_def TPE_vec4_def)
  show ?thesis
    unfolding TPE_lineSegmentClosestPoint_def Let_def m d n t c v p ..
qed

lemma closest_point_short_segment:
  "TPE_lineSegmentClosestPoint (TPE_vec4 0 0 0 0) (TPE_vec4 10 0 0 0) (TPE_vec4 20 0 0 0)
     = TPE_vec4 0 0 0 0"
proof -
  have m: "TPE_vec3Minus (TPE_vec4 10 0 0 0) (TPE_vec4 0 0 0 0) = TPE_vec4 10 0 0 0"
      "TPE_vec3Minus (TPE_vec4 20 0 0 0) (TPE_vec4 0 0 0 0) = TPE_vec4 20 0 0 0"
    by (simp_all add: TPE_vec3Minus_def TPE_vec4_def)
  have d: "TPE_vec3DotProduct (TPE_vec4 10 0 0 0) (TPE_vec4 20 0 0 0) = 0"
      "TPE_vec3DotProduct (TPE_vec4 10 0 0 0) (TPE_vec4 10 0 0 0) = 0"
    by (simp_all add: TPE_vec3DotProduct_def TPE_vec4_def TPE_FRACTIONS_PER_UNIT_def c_div_def
        signed_divide_int_def)
  have n: "TPE_nonZero 0 = 1" by (simp add: TPE_nonZero_def)
  have t: "c_div (0 * TPE_FRACTIONS_PER_UNIT) 1 = 0"
    by (simp add: c_div_def)
  have c: "(if (0 :: 32 word) <s 0 then 0
            else if TPE_FRACTIONS_PER_UNIT <s 0 then TPE_FRACTIONS_PER_UNIT else 0) = 0"
    by (simp add: TPE_FRACTIONS_PER_UNIT_def word_sless_alt)
  have v: "TPE_vec3Multiply (TPE_vec4 10 0 0 0) 0 (TPE_vec4 10 0 0 0) = TPE_vec4 0 0 0 0"
    by (simp add: TPE_vec3Multiply_def TPE_vec4_def c_div_def)
  have p: "TPE_vec3Plus (TPE_vec4 0 0 0 0) (TPE_vec4 0 0 0 0) = TPE_vec4 0 0 0 0"
    by (simp add: TPE_vec3Plus_def TPE_vec4_def)
  show ?thesis
    unfolding TPE_lineSegmentClosestPoint_def Let_def m d n t c v p ..
qed

text \<open>
  C2.  \<^verbatim>\<open>TPE_lineSegmentClosestPoint\<close> computes
  \<open>t = clamp (dot (b - a) (p - a) * F / nonZero (dot (b - a) (b - a))) 0 F\<close> with the truncating
  fixed-point dot product and returns \<open>a + (b - a) * t / F\<close>.  For the segment from
  \<open>(0,0,0)\<close> to \<open>(100,0,0)\<close> and the query \<open>(50,0,0)\<close> that is \<open>(47,0,0)\<close>.  With the components
  of \<open>b - a\<close> and \<open>p - a\<close> at most \<open>26000\<close> in absolute value: a query that projects at or
  before \<open>a\<close> (so any query on the extension past \<open>a\<close>) gives exactly \<open>a\<close>; a query that
  projects at or beyond \<open>b\<close> gives exactly \<open>b\<close> (with the fourth component of \<open>a\<close>), when the
  squared length of the segment is at least \<open>F\<close>.
\<close>

theorem TPE_lineSegmentClosestPoint_fixed_point:
  "TPE_lineSegmentClosestPoint a b p =
     (let ab = TPE_vec3Minus b a;
          t = TPE_clamp
                (c_div (TPE_vec3DotProduct ab (TPE_vec3Minus p a) * TPE_FRACTIONS_PER_UNIT)
                   (TPE_nonZero (TPE_vec3DotProduct ab ab)))
                0 TPE_FRACTIONS_PER_UNIT
      in TPE_vec3Plus a (TPE_vec3Times ab t)) \<and>
   TPE_lineSegmentClosestPoint (TPE_vec4 0 0 0 0) (TPE_vec4 100 0 0 0) (TPE_vec4 50 0 0 0)
     = TPE_vec4 47 0 0 0 \<and>
   (coords_within 26000 (TPE_vec3Minus b a) \<and> coords_within 26000 (TPE_vec3Minus p a) \<and>
    TPE_vec3DotProductPlain (TPE_vec3Minus b a) (TPE_vec3Minus p a) \<le>s 0
      \<longrightarrow> TPE_lineSegmentClosestPoint a b p = a) \<and>
   (coords_within 26000 (TPE_vec3Minus b a) \<and> coords_within 26000 (TPE_vec3Minus p a) \<and>
    TPE_FRACTIONS_PER_UNIT \<le>s TPE_vec3DotProductPlain (TPE_vec3Minus b a) (TPE_vec3Minus b a) \<and>
    TPE_vec3DotProductPlain (TPE_vec3Minus b a) (TPE_vec3Minus b a)
      \<le>s TPE_vec3DotProductPlain (TPE_vec3Minus b a) (TPE_vec3Minus p a)
      \<longrightarrow> TPE_lineSegmentClosestPoint a b p = b\<lparr>vec_w := vec_w a\<rparr>)"
proof (intro conjI impI)
  show "TPE_lineSegmentClosestPoint a b p =
     (let ab = TPE_vec3Minus b a;
          t = TPE_clamp
                (c_div (TPE_vec3DotProduct ab (TPE_vec3Minus p a) * TPE_FRACTIONS_PER_UNIT)
                   (TPE_nonZero (TPE_vec3DotProduct ab ab)))
                0 TPE_FRACTIONS_PER_UNIT
      in TPE_vec3Plus a (TPE_vec3Times ab t))"
    unfolding TPE_lineSegmentClosestPoint_def Let_def clamp_as_in_closest_point
    by (simp add: TPE_vec3Multiply_def TPE_vec3Times_def)
next
  show "TPE_lineSegmentClosestPoint (TPE_vec4 0 0 0 0) (TPE_vec4 100 0 0 0) (TPE_vec4 50 0 0 0)
     = TPE_vec4 47 0 0 0"
    by (rule closest_point_example)
next
  assume h: "coords_within 26000 (TPE_vec3Minus b a) \<and> coords_within 26000 (TPE_vec3Minus p a) \<and>
    TPE_vec3DotProductPlain (TPE_vec3Minus b a) (TPE_vec3Minus p a) \<le>s 0"
  then have c: "coords_within 26000 (TPE_vec3Minus b a)" "coords_within 26000 (TPE_vec3Minus p a)"
    by simp_all
  from h have "dot_int (TPE_vec3Minus b a) (TPE_vec3Minus p a) \<le> 0"
    by (simp add: word_sle_eq sint_dot_plain [OF c])
  with c show "TPE_lineSegmentClosestPoint a b p = a"
    by (rule closest_point_before_start)
next
  assume h: "coords_within 26000 (TPE_vec3Minus b a) \<and> coords_within 26000 (TPE_vec3Minus p a) \<and>
    TPE_FRACTIONS_PER_UNIT \<le>s TPE_vec3DotProductPlain (TPE_vec3Minus b a) (TPE_vec3Minus b a) \<and>
    TPE_vec3DotProductPlain (TPE_vec3Minus b a) (TPE_vec3Minus b a)
      \<le>s TPE_vec3DotProductPlain (TPE_vec3Minus b a) (TPE_vec3Minus p a)"
  then have c: "coords_within 26000 (TPE_vec3Minus b a)" "coords_within 26000 (TPE_vec3Minus p a)"
    by simp_all
  from h have "512 \<le> dot_int (TPE_vec3Minus b a) (TPE_vec3Minus b a)"
      "dot_int (TPE_vec3Minus b a) (TPE_vec3Minus b a)
         \<le> dot_int (TPE_vec3Minus b a) (TPE_vec3Minus p a)"
    by (simp_all add: word_sle_eq sint_dot_plain [OF c] sint_dot_plain [OF c(1) c(1)]
        TPE_FRACTIONS_PER_UNIT_def)
  with c show "TPE_lineSegmentClosestPoint a b p = b\<lparr>vec_w := vec_w a\<rparr>"
    by (rule closest_point_past_end)
qed

theorem TPE_lineSegmentClosestPoint_fixed_point_witness:
  "coords_within 26000 (TPE_vec3Minus (TPE_vec4 1000 10000 20000 0) (TPE_vec4 (- 100) (- 100) 20 0)) \<and>
   coords_within 26000 (TPE_vec3Minus (TPE_vec4 (- 3000) (- 5000) (- 1000) 0) (TPE_vec4 (- 100) (- 100) 20 0)) \<and>
   TPE_lineSegmentClosestPoint (TPE_vec4 (- 100) (- 100) 20 0) (TPE_vec4 1000 10000 20000 0)
       (TPE_vec4 (- 3000) (- 5000) (- 1000) 0)
     = TPE_vec4 (- 100) (- 100) 20 0 \<and>
   coords_within 26000 (TPE_vec3Minus (TPE_vec4 100 0 0 0) (TPE_vec4 0 0 0 0)) \<and>
   coords_within 26000 (TPE_vec3Minus (TPE_vec4 200 0 0 0) (TPE_vec4 0 0 0 0)) \<and>
   TPE_lineSegmentClosestPoint (TPE_vec4 0 0 0 0) (TPE_vec4 100 0 0 0) (TPE_vec4 200 0 0 0)
     = TPE_vec4 100 0 0 0"
proof -
  let ?a = "TPE_vec4 (- 100) (- 100) 20 0"
  let ?b = "TPE_vec4 1000 10000 20000 0"
  let ?p = "TPE_vec4 (- 3000) (- 5000) (- 1000) 0"
  let ?o = "TPE_vec4 0 0 0 0"
  let ?e = "TPE_vec4 100 0 0 0"
  let ?q = "TPE_vec4 200 0 0 0"
  have c: "coords_within 26000 (TPE_vec3Minus ?b ?a)" "coords_within 26000 (TPE_vec3Minus ?p ?a)"
      "coords_within 26000 (TPE_vec3Minus ?e ?o)" "coords_within 26000 (TPE_vec3Minus ?q ?o)"
    by (simp_all add: coords_within_def TPE_vec3Minus_def TPE_vec4_def)
  have d: "TPE_vec3DotProductPlain (TPE_vec3Minus ?b ?a) (TPE_vec3Minus ?p ?a) \<le>s 0"
      "TPE_FRACTIONS_PER_UNIT \<le>s TPE_vec3DotProductPlain (TPE_vec3Minus ?e ?o) (TPE_vec3Minus ?e ?o)"
      "TPE_vec3DotProductPlain (TPE_vec3Minus ?e ?o) (TPE_vec3Minus ?e ?o)
        \<le>s TPE_vec3DotProductPlain (TPE_vec3Minus ?e ?o) (TPE_vec3Minus ?q ?o)"
    by (simp_all add: TPE_vec3Minus_def TPE_vec4_def TPE_vec3DotProductPlain_def
        TPE_FRACTIONS_PER_UNIT_def word_sle_eq)
  have "TPE_lineSegmentClosestPoint ?a ?b ?p = ?a"
    using TPE_lineSegmentClosestPoint_fixed_point [of ?a ?b ?p] c(1,2) d(1) by blast
  moreover have "TPE_lineSegmentClosestPoint ?o ?e ?q = ?e\<lparr>vec_w := vec_w ?o\<rparr>"
    using TPE_lineSegmentClosestPoint_fixed_point [of ?o ?e ?q] c(3,4) d(2,3) by blast
  moreover have "?e\<lparr>vec_w := vec_w ?o\<rparr> = ?e" by (simp add: TPE_vec4_def)
  ultimately show ?thesis using c by simp
qed

theorem TPE_lineSegmentClosestPoint_not_exact:
  "TPE_lineSegmentClosestPoint (TPE_vec4 0 0 0 0) (TPE_vec4 100 0 0 0) (TPE_vec4 50 0 0 0)
     \<noteq> TPE_vec4 50 0 0 0 \<and>
   TPE_lineSegmentClosestPoint (TPE_vec4 0 0 0 0) (TPE_vec4 10 0 0 0) (TPE_vec4 20 0 0 0)
     \<noteq> TPE_vec4 10 0 0 0"
  unfolding closest_point_example closest_point_short_segment
  by (simp add: TPE_vec4_def)

section \<open>The quarter turn about the z axis\<close>

lemma quarter_turn_quaternion:
  "TPE_rotationToQuaternion (TPE_vec4 0 0 TPE_FRACTIONS_PER_UNIT 0) (c_div TPE_FRACTIONS_PER_UNIT 4)
     = TPE_vec4 0 0 361 356"
proof -
  have l: "TPE_vec3Len (TPE_vec4 0 0 TPE_FRACTIONS_PER_UNIT 0) = 512"
    by (simp add: TPE_vec3Len_def TPE_vec4_def TPE_FRACTIONS_PER_UNIT_def TPE_sqrt_262144)
  have n: "TPE_vec3Normalize (TPE_vec4 0 0 TPE_FRACTIONS_PER_UNIT 0) = TPE_vec4 0 0 512 0"
    unfolding TPE_vec3Normalize_def l
    by (simp add: TPE_vec4_def TPE_FRACTIONS_PER_UNIT_def c_div_def signed_divide_int_def)
  have a: "c_div (c_div TPE_FRACTIONS_PER_UNIT 4) 2 = 64"
    by (simp add: TPE_FRACTIONS_PER_UNIT_def c_div_def signed_divide_int_def)
  show ?thesis
    unfolding TPE_rotationToQuaternion_def n a Let_def TPE_sin_64 TPE_cos_64
    by (simp add: TPE_vec4_def TPE_FRACTIONS_PER_UNIT_def c_div_def signed_divide_int_def)
qed

lemma quarter_turn_about_z_eval: "quarter_turn_about_z = TPE_vec4 3 (- 502) 0 0"
  unfolding quarter_turn_about_z_def quarter_turn_quaternion
  by (simp add: TPE_rotatePoint_def TPE_quaternionToRotationMatrix_def TPE_vec4_def
      TPE_FRACTIONS_PER_UNIT_def c_div_def signed_divide_int_def Let_def)

text \<open>
  C3.  Rotating \<open>(F,0,0)\<close> by a quarter turn about the \<open>z\<close> axis, the quaternion built by
  \<^verbatim>\<open>TPE_rotationToQuaternion\<close> and applied by \<^verbatim>\<open>TPE_rotatePoint\<close>, gives \<open>(3,-502,0)\<close>:
  within \<open>10\<close> of \<open>(0,-F,0)\<close> in every component.  \<^verbatim>\<open>TPE_rotatePoint\<close> multiplies the point as
  a row vector with the matrix, the convention of small3dlib that the header adopts, and this
  turns \<open>x\<close> towards \<open>-y\<close>.
\<close>

theorem quarter_turn_about_z_value:
  "quarter_turn_about_z = TPE_vec4 3 (- 502) 0 0 \<and>
   within_tolerance 10 quarter_turn_about_z (TPE_vec4 0 (- TPE_FRACTIONS_PER_UNIT) 0 0)"
  unfolding quarter_turn_about_z_eval
  by (simp add: within_tolerance_def TPE_vec4_def TPE_FRACTIONS_PER_UNIT_def)

theorem quarter_turn_about_z_not_plus_y:
  "\<not> within_tolerance 512 quarter_turn_about_z (TPE_vec4 0 TPE_FRACTIONS_PER_UNIT 0 0)"
  unfolding quarter_turn_about_z_eval
  by (simp add: within_tolerance_def TPE_vec4_def TPE_FRACTIONS_PER_UNIT_def)

section \<open>Worlds: gravity, stepping, attraction\<close>

lemma update_then_map_rest:
  assumes "i < length xs"
  shows "take (Suc i) (xs[i := f (xs ! i)]) @ map f (drop (Suc i) (xs[i := f (xs ! i)]))
       = take i xs @ map f (drop i xs)"
proof -
  have "take (Suc i) (xs[i := f (xs ! i)]) = take i xs @ [f (xs ! i)]"
    using assms by (simp add: take_Suc_conv_app_nth)
  moreover have "drop i xs = xs ! i # drop (Suc i) xs"
    using assms by (simp add: Cons_nth_drop_Suc)
  ultimately show ?thesis by simp
qed

lemma worldApplyGravityDown_from_map:
  assumes "length (bodies world) = unat (bodyCount world)" "i \<le> length (bodies world)"
  shows "worldApplyGravityDown_from world g i =
         Some (world\<lparr>bodies := take i (bodies world)
                 @ map (applyGravityDown_body g) (drop i (bodies world))\<rparr>)"
  using assms
proof (induction "length (bodies world) - i" arbitrary: world i)
  case 0
  then have "i = length (bodies world)" by simp
  with 0 show ?case by (subst worldApplyGravityDown_from.simps) simp
next
  case (Suc n)
  let ?bs = "bodies world"
  let ?w = "world\<lparr>bodies := ?bs[i := applyGravityDown_body g (?bs ! i)]\<rparr>"
  have lt: "i < length ?bs" using Suc.hyps(2) by simp
  have "worldApplyGravityDown_from ?w g (Suc i) =
      Some (?w\<lparr>bodies := take (Suc i) (bodies ?w)
                @ map (applyGravityDown_body g) (drop (Suc i) (bodies ?w))\<rparr>)"
    using Suc.hyps(2) Suc.prems lt by (intro Suc.hyps(1)) simp_all
  also have "\<dots> = Some (world\<lparr>bodies := take i ?bs @ map (applyGravityDown_body g) (drop i ?bs)\<rparr>)"
    using update_then_map_rest [OF lt, of "applyGravityDown_body g"] by simp
  finally show ?case
    using lt Suc.prems(1) by (subst worldApplyGravityDown_from.simps) simp
qed

text \<open>
  C8.  Applying gravity \<open>g\<close> to a world (whose \<^verbatim>\<open>bodyCount\<close> is the length of its body
  array) subtracts exactly \<open>g\<close> from the \<open>y\<close> velocity of every body whose mass is not
  \<^verbatim>\<open>TPE_INFINITY\<close>, leaves the bodies of mass \<^verbatim>\<open>TPE_INFINITY\<close> untouched, and changes
  nothing else: the new world is the old one with that one update mapped over its bodies.
\<close>

theorem TPE_worldApplyGravityDown_frame:
  assumes "length (bodies world) = unat (bodyCount world)"
  shows "TPE_worldApplyGravityDown world g =
     Some (world\<lparr>bodies :=
        map (\<lambda>b. if mass b \<noteq> TPE_INFINITY
                 then b\<lparr>velocity := (velocity b)\<lparr>vec_y := vec_y (velocity b) - g\<rparr>\<rparr>
                 else b)
          (bodies world)\<rparr>)"
proof -
  have "applyGravityDown_body g = (\<lambda>b. if mass b \<noteq> TPE_INFINITY
                 then b\<lparr>velocity := (velocity b)\<lparr>vec_y := vec_y (velocity b) - g\<rparr>\<rparr>
                 else b)"
    by (rule ext) (simp add: applyGravityDown_body_def)
  then show ?thesis
    using worldApplyGravityDown_from_map [OF assms, of 0 g]
    by (simp add: TPE_worldApplyGravityDown_def)
qed

theorem TPE_worldApplyGravityDown_frame_witness:
  "length (bodies \<lparr>bodies = [example_moving, example_static], bodyCount = 2\<rparr>)
     = unat (bodyCount \<lparr>bodies = [example_moving, example_static], bodyCount = 2\<rparr>) \<and>
   TPE_worldApplyGravityDown \<lparr>bodies = [example_moving, example_static], bodyCount = 2\<rparr> 5
     = Some \<lparr>bodies = [example_moving\<lparr>velocity := TPE_vec4 0 (- 5) 0 0\<rparr>, example_static],
             bodyCount = 2\<rparr>"
  using TPE_worldApplyGravityDown_frame
    [of "\<lparr>bodies = [example_moving, example_static], bodyCount = 2\<rparr>" 5]
  by (simp add: example_moving_def example_static_def TPE_bodyInit_def zeroed_body_def
      TPE_initVec4_def TPE_vec4_def TPE_INFINITY_def TPE_FRACTIONS_PER_UNIT_def)

lemma worldStepBodies_from_map:
  assumes "length (bodies world) = unat (bodyCount world)" "i \<le> length (bodies world)"
  shows "worldStepBodies_from world i =
         Some (world\<lparr>bodies := take i (bodies world) @ map TPE_bodyStep (drop i (bodies world))\<rparr>)"
  using assms
proof (induction "length (bodies world) - i" arbitrary: world i)
  case 0
  then have "i = length (bodies world)" by simp
  with 0 show ?case by (subst worldStepBodies_from.simps) simp
next
  case (Suc n)
  let ?bs = "bodies world"
  let ?w = "world\<lparr>bodies := ?bs[i := TPE_bodyStep (?bs ! i)]\<rparr>"
  have lt: "i < length ?bs" using Suc.hyps(2) by simp
  have "worldStepBodies_from ?w (Suc i) =
      Some (?w\<lparr>bodies := take (Suc i) (bodies ?w) @ map TPE_bodyStep (drop (Suc i) (bodies ?w))\<rparr>)"
    using Suc.hyps(2) Suc.prems lt by (intro Suc.hyps(1)) simp_all
  also have "\<dots> = Some (world\<lparr>bodies := take i ?bs @ map TPE_bodyStep (drop i ?bs)\<rparr>)"
    using update_then_map_rest [OF lt, of TPE_bodyStep] by simp
  finally show ?case
    using lt Suc.prems(1) by (subst worldStepBodies_from.simps) simp
qed

lemma TPE_worldStepBodies_map:
  assumes "length (bodies world) = unat (bodyCount world)"
  shows "TPE_worldStepBodies world = Some (world\<lparr>bodies := map TPE_bodyStep (bodies world)\<rparr>)"
  using worldStepBodies_from_map [OF assms, of 0] by (simp add: TPE_worldStepBodies_def)

lemma TPE_bodyStep_static:
  assumes "mass body = TPE_INFINITY"
  shows "position (TPE_bodyStep body) = position body"
    and "velocity (TPE_bodyStep body) = velocity body"
    and "rotation (TPE_bodyStep body) = rotation body"
    and "mass (TPE_bodyStep body) = TPE_INFINITY"
  using assms by (simp_all add: TPE_bodyStep_def Let_def)

text \<open>
  C4.  \<^verbatim>\<open>TPE_attractBodies\<close> never looks at the masses: it changes the velocity of a static
  body like that of any other.  The static body at rest at the origin, attracted to a body
  at \<open>(1000,0,0)\<close> with acceleration \<open>F\<close>, leaves with velocity \<open>(F,0,0)\<close>.
\<close>

theorem TPE_attractBodies_moves_static:
  "mass example_static = TPE_INFINITY \<and>
   velocity example_static = TPE_vec4 0 0 0 0 \<and>
   velocity (fst (TPE_attractBodies example_static example_moving TPE_FRACTIONS_PER_UNIT))
     = TPE_vec4 512 0 0 0"
  by (simp add: TPE_attractBodies_def TPE_createVecFromTo_def TPE_vec3Normalized_def
      TPE_vec3Normalize_def TPE_vec3Len_def TPE_vec3Times_def TPE_vec3Minus_def
      example_moving_def example_static_def TPE_bodyInit_def zeroed_body_def
      TPE_initVec4_def TPE_vec4_def TPE_FRACTIONS_PER_UNIT_def TPE_sqrt_1000000
      c_div_def signed_divide_int_def Let_def)

end
